theory Spec2Isabelle
  imports Complex_Main
begin

section \<open>Strings\<close>

text \<open>
  A Python \<^verbatim>\<open>str\<close> is a sequence of Unicode code points, so a string is a list of
  code points here. \<open>py\<close> reads a literal.
\<close>

type_synonym pystr = "nat list"

definition py :: "string \<Rightarrow> pystr" where
  "py s = map of_char s"

text \<open>
  \<^verbatim>\<open>str.isspace\<close> for one code point: the code points that CPython treats as
  whitespace, the ones \<^verbatim>\<open>str.strip()\<close> removes.
\<close>

definition isspace :: "nat \<Rightarrow> bool" where
  "isspace c \<longleftrightarrow>
     (9 \<le> c \<and> c \<le> 13) \<or> (28 \<le> c \<and> c \<le> 32) \<or> c = 133 \<or> c = 160 \<or> c = 5760 \<or>
     (8192 \<le> c \<and> c \<le> 8202) \<or> c = 8232 \<or> c = 8233 \<or> c = 8239 \<or> c = 8287 \<or>
     c = 12288"

text \<open>\<^verbatim>\<open>text.strip()\<close>: whitespace is dropped at both ends.\<close>

definition strip :: "pystr \<Rightarrow> pystr" where
  "strip s = rev (dropWhile isspace (rev (dropWhile isspace s)))"

text \<open>The truth value of a string in a condition: it is not empty.\<close>

definition truthy :: "pystr \<Rightarrow> bool" where
  "truthy s \<longleftrightarrow> s \<noteq> []"

text \<open>
  \<^verbatim>\<open>s.split("\n")\<close>: the pieces between line feeds. The result is never empty:
  the empty string gives one empty piece.
\<close>

fun split_nl :: "pystr \<Rightarrow> pystr list" where
  "split_nl [] = [[]]"
| "split_nl (c # cs) =
     (if c = 10 then [] # split_nl cs
      else (c # hd (split_nl cs)) # tl (split_nl cs))"

text \<open>\<^verbatim>\<open>"\n".join(xs)\<close>.\<close>

fun join_nl :: "pystr list \<Rightarrow> pystr" where
  "join_nl [] = []"
| "join_nl [x] = x"
| "join_nl (x # y # ys) = x @ [10] @ join_nl (y # ys)"

section \<open>Blocks\<close>

text \<open>
  A bounding box is the four coordinates of the PDF library. The program never
  computes with them.
\<close>

type_synonym bbox = "real \<times> real \<times> real \<times> real"

text \<open>The dictionaries \<^verbatim>\<open>{"bbox": ..., "text": ...}\<close> of the program (\<open>text\<close> is a
  keyword of the theory language, hence the name \<open>text'\<close>).\<close>

record item =
  bbox :: bbox
  text' :: pystr

section \<open>Pairing translated lines with blocks\<close>

text \<open>
  The loop \<^verbatim>\<open>for i, item in enumerate(page_items)\<close> of \<^verbatim>\<open>index\<close>, the same in
  the modes \<^verbatim>\<open>pdf\<close> and \<^verbatim>\<open>both\<close>. The counter starts at 0.
\<close>

fun translated_items_from :: "nat \<Rightarrow> item list \<Rightarrow> pystr list \<Rightarrow> item list" where
  "translated_items_from i [] split_translations = []"
| "translated_items_from i (it # its) split_translations =
     \<lparr>bbox = bbox it,
      text' = (if i < length split_translations then split_translations ! i else text' it)\<rparr>
     # translated_items_from (Suc i) its split_translations"

definition translated_items :: "item list \<Rightarrow> pystr \<Rightarrow> item list" where
  "translated_items page_items translated_text =
     translated_items_from 0 page_items (split_nl translated_text)"

section \<open>Prompts\<close>

text \<open>The two f-strings of the program, with their placeholders.\<close>

definition prompt_json :: "pystr \<Rightarrow> pystr \<Rightarrow> pystr" where
  \<open>prompt_json doc_text target_language =
     py (''\<newline>'' @
         ''Please analyze the following document text.\<newline>'' @
         ''\<newline>'' @
         ''Instructions:\<newline>'' @
         ''1. Detect the original language automatically.\<newline>'' @
         ''2. Translate all text into '') @
     target_language @
     py (''.\<newline>'' @
         ''3. Provide the result in this exact JSON format (valid JSON, no extra text outside the JSON):\<newline>'' @
         ''\<newline>'' @
         ''{\<newline>'' @
         ''  "doc_type": "auto-detected document type (e.g., invoice, contract, letter, etc.)",\<newline>'' @
         ''  "metadata": {\<newline>'' @
         ''    "detected_language": "ISO language code (e.g., 'ja', 'zh', 'ko', 'en')",\<newline>'' @
         ''    "confidence": float_between_0_and_1\<newline>'' @
         ''  },\<newline>'' @
         ''  "entities": {\<newline>'' @
         ''    // Extract all identifiable information as key-value pairs\<newline>'' @
         ''    // Use descriptive keys written in '') @
     target_language @
     py (''\<newline>'' @
         ''  },\<newline>'' @
         ''  "full_translated_text": "Full translation of the document in '') @
     target_language @
     py (''"\<newline>'' @
         ''}\<newline>'' @
         ''\<newline>'' @
         ''4. Preserve numbers, dates, and currency formats exactly as in the original.\<newline>'' @
         ''5. If any content is unreadable, replace it with "[unreadable]".\<newline>'' @
         ''6. Include all readable information from the document without summarizing or omitting.\<newline>'' @
         ''\<newline>'' @
         ''Document text:\<newline>'') @
     doc_text @
     py (''\<newline>'')\<close>

definition prompt_translate :: "pystr \<Rightarrow> pystr \<Rightarrow> pystr" where
  \<open>prompt_translate doc_text target_language =
     py (''\<newline>'' @
         ''You are a professional document translator.\<newline>'' @
         ''\<newline>'' @
         ''Instructions:\<newline>'' @
         ''1. Detect the original language automatically.\<newline>'' @
         ''2. Translate the entire document into '') @
     target_language @
     py (''.\<newline>'' @
         ''3. Maintain the original document's formatting exactly:\<newline>'' @
         ''   - Keep the same page structure, fonts, sizes, and spacing.\<newline>'' @
         ''   - Preserve images, tables, charts, and any non-text elements.\<newline>'' @
         ''   - Keep numbers, dates, and currency values exactly as in the original.\<newline>'' @
         ''4. Only translate text; do not alter non-text elements.\<newline>'' @
         ''\<newline>'' @
         ''Document text:\<newline>'') @
     doc_text @
     py (''\<newline>'')\<close>

section \<open>The PDF library\<close>

text \<open>
  What the program reads from an opened page: the tuples of
  \<^verbatim>\<open>page.get_text("blocks")\<close> (four coordinates, the text, and the two entries the
  program drops with \<^verbatim>\<open>*_\<close>), the plain text of \<^verbatim>\<open>page.get_text()\<close>, and the
  rectangle of the page.
\<close>

record raw_block =
  x0 :: real
  y0 :: real
  x1 :: real
  y1 :: real
  block_text :: pystr
  block_no :: nat
  block_type :: nat

record page =
  rect :: bbox
  plain_text :: pystr
  blocks :: "raw_block list"

text \<open>
  An opened document: its pages, and whether it is a PDF (\<^verbatim>\<open>doc.is_pdf\<close>). The library
  opens files of other formats as well.
\<close>

record document =
  is_pdf :: bool
  pages :: "page list"

text \<open>
  What the program does to an opened page, in the order of the calls. A colour is
  three numbers, a point two.
\<close>

datatype page_op =
    AddRedactAnnot bbox "real \<times> real \<times> real"
  | ApplyRedactions
  | InsertText "real \<times> real" pystr pystr real "real \<times> real \<times> real"

text \<open>
  A page of an open document: the page as the library has it now, and the calls made on
  it since the document was opened, the oldest first.
\<close>

type_synonym open_page = "page \<times> page_op list"

section \<open>Files, errors and the environment\<close>

text \<open>
  The files of the temporary directory: the upload as it came, the dump of a JSON
  value, the part of a dump written before \<^verbatim>\<open>json.dump\<close> raised, a saved document with
  its pages, an archive of named files. \<open>'j\<close> is the type of the values of
  \<^verbatim>\<open>json.loads\<close>.
\<close>

datatype 'j fcontent =
    Upload "nat list"
  | JsonFile 'j
  | PartialJsonFile 'j
  | PdfFile "page list"
  | ZipFile "(pystr \<times> 'j fcontent) list"

text \<open>The exceptions that leave \<^verbatim>\<open>index\<close>, named after the call that raises.\<close>

datatype error =
    BadRequestKeyError
  | IsADirectoryError
  | FileNotFoundError
  | FileDataError
  | GenerateContentError
  | JSONDecodeError
  | DumpError
  | IndexError
  | PageCallError
  | SaveError

text \<open>
  The libraries and the configuration are not part of the program; they are parameters:
  \<^item> \<open>LANGUAGES\<close>: the content of \<^verbatim>\<open>languages.json\<close>;
  \<^item> \<open>secure_name\<close>: werkzeug's \<^verbatim>\<open>secure_filename\<close>, which returns a name with no
    directory part, possibly the empty name;
  \<^item> \<open>parse\<close>: what \<^verbatim>\<open>fitz.open\<close> makes of a file with a given name and content,
    \<open>None\<close> when it raises; the library chooses the format by the name as well as by
    the content;
  \<^item> \<open>page_call\<close>: what a call of \<^verbatim>\<open>add_redact_annot\<close>, \<^verbatim>\<open>apply_redactions\<close> or
    \<^verbatim>\<open>insert_text\<close> makes of a page, \<open>None\<close> when it raises; the arguments are whether
    the document is a PDF, the calls made on the page before, the call, and the page;
  \<^item> \<open>generate\<close>: the answer of the remote model to a prompt, \<open>None\<close> when the call
    or reading \<^verbatim>\<open>response.text\<close> raises; the first argument counts the calls made
    before, since the model may answer the same prompt differently;
  \<^item> \<open>loads\<close>: \<^verbatim>\<open>json.loads\<close>, \<open>None\<close> when it raises;
  \<^item> \<open>can_dump\<close>: whether \<^verbatim>\<open>json.dump\<close> of a value to the opened file returns;
  \<^item> \<open>can_save\<close>: whether \<^verbatim>\<open>doc.save\<close> succeeds for a document opened from the first
    name and saved under the second.
\<close>

record 'j env =
  LANGUAGES :: "pystr list"
  secure_name :: "pystr \<Rightarrow> pystr"
  parse :: "pystr \<Rightarrow> 'j fcontent \<Rightarrow> document option"
  page_call :: "bool \<Rightarrow> page_op list \<Rightarrow> page_op \<Rightarrow> page \<Rightarrow> page option"
  generate :: "nat \<Rightarrow> pystr \<Rightarrow> pystr option"
  loads :: "pystr \<Rightarrow> 'j option"
  can_dump :: "'j \<Rightarrow> bool"
  can_save :: "pystr \<Rightarrow> pystr \<Rightarrow> document \<Rightarrow> bool"

text \<open>
  The state: the files of the temporary directory by name, and the prompts sent to the
  model so far, the oldest first.
\<close>

record 'j state =
  tmpdir :: "pystr \<rightharpoonup> 'j fcontent"
  prompts :: "pystr list"

section \<open>Calls to the model and to the PDF library\<close>

text \<open>\<^verbatim>\<open>call_gemini\<close>: one call of the model; the prompt is sent whether or not the call
  returns.\<close>

definition call_gemini :: "'j env \<Rightarrow> pystr \<Rightarrow> 'j state \<Rightarrow> (error + pystr) \<times> 'j state" where
  "call_gemini env prompt st =
     (case generate env (length (prompts st)) prompt of
        None \<Rightarrow> Inl GenerateContentError
      | Some answer \<Rightarrow> Inr answer,
      st\<lparr>prompts := prompts st @ [prompt]\<rparr>)"

text \<open>\<^verbatim>\<open>fitz.open(path)\<close> for a file of the temporary directory.\<close>

definition fitz_open :: "'j env \<Rightarrow> 'j state \<Rightarrow> pystr \<Rightarrow> error + document" where
  "fitz_open env st path =
     (case tmpdir st path of
        None \<Rightarrow> Inl FileNotFoundError
      | Some f \<Rightarrow> (case parse env path f of None \<Rightarrow> Inl FileDataError | Some doc \<Rightarrow> Inr doc))"

text \<open>
  A call on a page of an open document. The call is recorded; when the library raises,
  the exception leaves the program, and the page is as it was.
\<close>

definition call_on_page ::
  "'j env \<Rightarrow> bool \<Rightarrow> page_op \<Rightarrow> open_page \<Rightarrow> (error + unit) \<times> open_page" where
  "call_on_page env pdf op pg =
     (case page_call env pdf (snd pg) op (fst pg) of
        None \<Rightarrow> (Inl PageCallError, (fst pg, snd pg @ [op]))
      | Some p \<Rightarrow> (Inr (), (p, snd pg @ [op])))"

definition add_redact_annot ::
  "'j env \<Rightarrow> bool \<Rightarrow> bbox \<Rightarrow> real \<times> real \<times> real \<Rightarrow> open_page
   \<Rightarrow> (error + unit) \<times> open_page" where
  "add_redact_annot env pdf box fill pg = call_on_page env pdf (AddRedactAnnot box fill) pg"

definition apply_redactions ::
  "'j env \<Rightarrow> bool \<Rightarrow> open_page \<Rightarrow> (error + unit) \<times> open_page" where
  "apply_redactions env pdf pg = call_on_page env pdf ApplyRedactions pg"

definition insert_text ::
  "'j env \<Rightarrow> bool \<Rightarrow> real \<times> real \<Rightarrow> pystr \<Rightarrow> pystr \<Rightarrow> real \<Rightarrow> real \<times> real \<times> real
   \<Rightarrow> open_page \<Rightarrow> (error + unit) \<times> open_page" where
  "insert_text env pdf point s fontname fontsize color pg =
     call_on_page env pdf (InsertText point s fontname fontsize color) pg"

section \<open>extract_text_with_positions\<close>

text \<open>The inner loop over the blocks of a page, with the list it appends to.\<close>

fun extract_blocks :: "raw_block list \<Rightarrow> item list \<Rightarrow> item list" where
  "extract_blocks [] page_items = page_items"
| "extract_blocks (b # bs) page_items =
     extract_blocks bs
       (if truthy (strip (block_text b))
        then page_items @ [\<lparr>bbox = (x0 b, y0 b, x1 b, y1 b), text' = block_text b\<rparr>]
        else page_items)"

text \<open>The outer loop over the pages.\<close>

fun extract_pages :: "page list \<Rightarrow> item list list \<Rightarrow> item list list" where
  "extract_pages [] pages_data = pages_data"
| "extract_pages (p # ps) pages_data =
     extract_pages ps (pages_data @ [extract_blocks (blocks p) []])"

definition extract_text_with_positions ::
  "'j env \<Rightarrow> 'j state \<Rightarrow> pystr \<Rightarrow> error + item list list" where
  "extract_text_with_positions env st pdf_path =
     (case fitz_open env st pdf_path of
        Inl e \<Rightarrow> Inl e
      | Inr doc \<Rightarrow> Inr (extract_pages (pages doc) []))"

section \<open>rebuild_pdf_with_translation\<close>

text \<open>
  The two inner loops over the items of a page. A call that raises ends the loop; the
  page is returned with the calls made on it so far.
\<close>

fun redact_items ::
  "'j env \<Rightarrow> bool \<Rightarrow> item list \<Rightarrow> open_page \<Rightarrow> (error + unit) \<times> open_page" where
  "redact_items env pdf [] pg = (Inr (), pg)"
| "redact_items env pdf (it # its) pg =
     (case add_redact_annot env pdf (bbox it) (1, 1, 1) pg of
        (Inl e, pg') \<Rightarrow> (Inl e, pg')
      | (Inr _, pg') \<Rightarrow> redact_items env pdf its pg')"

fun insert_items ::
  "'j env \<Rightarrow> bool \<Rightarrow> item list \<Rightarrow> open_page \<Rightarrow> (error + unit) \<times> open_page" where
  "insert_items env pdf [] pg = (Inr (), pg)"
| "insert_items env pdf (it # its) pg =
     (case insert_text env pdf (fst (bbox it), fst (snd (bbox it))) (text' it) (py ''helv'') 10
             (0, 0, 0) pg of
        (Inl e, pg') \<Rightarrow> (Inl e, pg')
      | (Inr _, pg') \<Rightarrow> insert_items env pdf its pg')"

text \<open>The body of the loop over the pages, for one page and its items.\<close>

definition rebuild_page ::
  "'j env \<Rightarrow> bool \<Rightarrow> item list \<Rightarrow> open_page \<Rightarrow> (error + unit) \<times> open_page" where
  "rebuild_page env pdf page_items pg =
     (case redact_items env pdf page_items pg of
        (Inl e, pg1) \<Rightarrow> (Inl e, pg1)
      | (Inr _, pg1) \<Rightarrow>
          (case apply_redactions env pdf pg1 of
             (Inl e, pg2) \<Rightarrow> (Inl e, pg2)
           | (Inr _, pg2) \<Rightarrow> insert_items env pdf page_items pg2))"

text \<open>
  The loop over the pages, from page number \<open>page_num\<close> on.
  \<^verbatim>\<open>translated_texts[page_num]\<close> raises when the list is too short. When the loop is
  left by an exception, the pages before have been changed, and nothing is saved.
\<close>

fun rebuild_pages ::
  "'j env \<Rightarrow> bool \<Rightarrow> nat \<Rightarrow> open_page list \<Rightarrow> item list list \<Rightarrow> error + open_page list" where
  "rebuild_pages env pdf page_num [] translated_texts = Inr []"
| "rebuild_pages env pdf page_num (pg # pgs) translated_texts =
     (if page_num < length translated_texts
      then (case rebuild_page env pdf (translated_texts ! page_num) pg of
              (Inl e, pg') \<Rightarrow> Inl e
            | (Inr _, pg') \<Rightarrow>
                (case rebuild_pages env pdf (Suc page_num) pgs translated_texts of
                   Inl e \<Rightarrow> Inl e
                 | Inr pgs' \<Rightarrow> Inr (pg' # pgs')))
      else Inl IndexError)"

text \<open>
  The saved file holds the pages of the open document as they are when
  \<^verbatim>\<open>doc.save\<close> is called.
\<close>

definition rebuild_pdf_with_translation ::
  "'j env \<Rightarrow> pystr \<Rightarrow> item list list \<Rightarrow> pystr \<Rightarrow> 'j state \<Rightarrow> (error + unit) \<times> 'j state" where
  "rebuild_pdf_with_translation env pdf_path translated_texts output_path st =
     (case fitz_open env st pdf_path of
        Inl e \<Rightarrow> (Inl e, st)
      | Inr doc \<Rightarrow>
          (case rebuild_pages env (is_pdf doc) 0 (map (\<lambda>p. (p, [])) (pages doc))
                  translated_texts of
             Inl e \<Rightarrow> (Inl e, st)
           | Inr doc' \<Rightarrow>
               if can_save env pdf_path output_path \<lparr>is_pdf = is_pdf doc, pages = map fst doc'\<rparr>
               then (Inr (), st\<lparr>tmpdir := (tmpdir st)(output_path \<mapsto> PdfFile (map fst doc'))\<rparr>)
               else (Inl SaveError, st)))"

section \<open>The request handler\<close>

datatype http_method = GET | HEAD | POST

record upload =
  filename :: pystr
  content :: "nat list"

text \<open>
  A request: its method, the entry \<^verbatim>\<open>file\<close> of \<^verbatim>\<open>request.files\<close>, and the entries
  \<^verbatim>\<open>target_language\<close> and \<^verbatim>\<open>mode\<close> of \<^verbatim>\<open>request.form\<close>, each of which may be
  missing.
\<close>

record request =
  request_method :: http_method
  file_field :: "upload option"
  target_language_field :: "pystr option"
  mode_field :: "pystr option"

datatype 'j response =
    SendFile pystr "'j fcontent"
  | RenderTemplate pystr "pystr list"

text \<open>\<^verbatim>\<open>send_file(path, as_attachment=True)\<close>: the response carries the file as it is
  at the time of the call.\<close>

definition send_file :: "'j state \<Rightarrow> pystr \<Rightarrow> error + 'j response" where
  "send_file st path =
     (case tmpdir st path of None \<Rightarrow> Inl FileNotFoundError | Some f \<Rightarrow> Inr (SendFile path f))"

text \<open>
  The loop \<^verbatim>\<open>for page_items in pages_data\<close>, written twice in the program (modes
  \<^verbatim>\<open>pdf\<close> and \<^verbatim>\<open>both\<close>): one call of the model for each page, in order, and the
  first call that raises ends the loop.
\<close>

fun translate_pages ::
  "'j env \<Rightarrow> pystr \<Rightarrow> item list list \<Rightarrow> item list list \<Rightarrow> 'j state
   \<Rightarrow> (error + item list list) \<times> 'j state" where
  "translate_pages env target_language [] translated_pages st = (Inr translated_pages, st)"
| "translate_pages env target_language (page_items # rest) translated_pages st =
     (let page_text = join_nl (map text' page_items) in
      case call_gemini env (prompt_translate page_text target_language) st of
        (Inl e, st') \<Rightarrow> (Inl e, st')
      | (Inr translated_text, st') \<Rightarrow>
          translate_pages env target_language rest
            (translated_pages @ [translated_items page_items translated_text]) st')"

text \<open>
  The structured part, written twice in the program (modes \<^verbatim>\<open>json\<close> and
  \<^verbatim>\<open>both\<close>): one call of the model, \<^verbatim>\<open>json.loads\<close> of the answer, and the dump of
  the value to \<^verbatim>\<open>output.json\<close>. The file is opened before the dump, so a dump that
  raises leaves a part of it.
\<close>

definition structured_branch ::
  "'j env \<Rightarrow> pystr \<Rightarrow> pystr \<Rightarrow> 'j state \<Rightarrow> (error + unit) \<times> 'j state" where
  "structured_branch env doc_text target_language st =
     (case call_gemini env (prompt_json doc_text target_language) st of
        (Inl e, st') \<Rightarrow> (Inl e, st')
      | (Inr gemini_output, st') \<Rightarrow>
          (case loads env gemini_output of
             None \<Rightarrow> (Inl JSONDecodeError, st')
           | Some json_data \<Rightarrow>
               if can_dump env json_data
               then (Inr (),
                     st'\<lparr>tmpdir := (tmpdir st')(py ''output.json'' \<mapsto> JsonFile json_data)\<rparr>)
               else (Inl DumpError,
                     st'\<lparr>tmpdir :=
                          (tmpdir st')(py ''output.json'' \<mapsto> PartialJsonFile json_data)\<rparr>)))"

text \<open>
  The rebuild part, written twice in the program (modes \<^verbatim>\<open>pdf\<close> and \<^verbatim>\<open>both\<close>):
  the blocks of the input, one translation for each page, the pairing, and the rebuilt
  document saved as \<^verbatim>\<open>translated.pdf\<close>.
\<close>

definition rebuild_branch ::
  "'j env \<Rightarrow> pystr \<Rightarrow> pystr \<Rightarrow> 'j state \<Rightarrow> (error + unit) \<times> 'j state" where
  "rebuild_branch env input_pdf_path target_language st =
     (case extract_text_with_positions env st input_pdf_path of
        Inl e \<Rightarrow> (Inl e, st)
      | Inr pages_data \<Rightarrow>
          (case translate_pages env target_language pages_data [] st of
             (Inl e, st') \<Rightarrow> (Inl e, st')
           | (Inr translated_pages, st') \<Rightarrow>
               rebuild_pdf_with_translation env input_pdf_path translated_pages
                 (py ''translated.pdf'') st'))"

text \<open>The archive of mode \<^verbatim>\<open>both\<close>: the two files, read when they are added.\<close>

definition write_zip :: "'j state \<Rightarrow> (error + unit) \<times> 'j state" where
  "write_zip st =
     (case tmpdir st (py ''output.json'') of
        None \<Rightarrow> (Inl FileNotFoundError, st)
      | Some json_file \<Rightarrow>
          (case tmpdir st (py ''translated.pdf'') of
             None \<Rightarrow> (Inl FileNotFoundError, st)
           | Some pdf_file \<Rightarrow>
               (Inr (),
                st\<lparr>tmpdir := (tmpdir st)(py ''result.zip'' \<mapsto>
                     ZipFile [(py ''output.json'', json_file),
                              (py ''translated.pdf'', pdf_file)])\<rparr>)))"

text \<open>
  The body of \<^verbatim>\<open>with tempfile.TemporaryDirectory() as tmpdir\<close>. A path in the
  directory is the name of the file. The result is an exception, a response returned
  from inside the block, or \<open>None\<close> when the block ends without a \<^verbatim>\<open>return\<close>; the
  state is the one in which the block is left, before the directory is removed.
\<close>

definition index_body ::
  "'j env \<Rightarrow> upload \<Rightarrow> pystr \<Rightarrow> pystr option \<Rightarrow> 'j state
   \<Rightarrow> (error + 'j response option) \<times> 'j state" where
  "index_body env file target_language user_choice st =
     (let input_pdf_path = secure_name env (filename file) in
      if input_pdf_path = [] then (Inl IsADirectoryError, st)
      else
        let st1 = st\<lparr>tmpdir := (tmpdir st)(input_pdf_path \<mapsto> Upload (content file))\<rparr> in
        case fitz_open env st1 input_pdf_path of
          Inl e \<Rightarrow> (Inl e, st1)
        | Inr doc \<Rightarrow>
            let doc_text = foldl (\<lambda>t p. t @ plain_text p) [] (pages doc) in
            if user_choice = Some (py ''json'') then
              (case structured_branch env doc_text target_language st1 of
                 (Inl e, st2) \<Rightarrow> (Inl e, st2)
               | (Inr _, st2) \<Rightarrow> (map_sum id Some (send_file st2 (py ''output.json'')), st2))
            else if user_choice = Some (py ''pdf'') then
              (case rebuild_branch env input_pdf_path target_language st1 of
                 (Inl e, st2) \<Rightarrow> (Inl e, st2)
               | (Inr _, st2) \<Rightarrow> (map_sum id Some (send_file st2 (py ''translated.pdf'')), st2))
            else if user_choice = Some (py ''both'') then
              (case structured_branch env doc_text target_language st1 of
                 (Inl e, st2) \<Rightarrow> (Inl e, st2)
               | (Inr _, st2) \<Rightarrow>
                   (case rebuild_branch env input_pdf_path target_language st2 of
                      (Inl e, st3) \<Rightarrow> (Inl e, st3)
                    | (Inr _, st3) \<Rightarrow>
                        (case write_zip st3 of
                           (Inl e, st4) \<Rightarrow> (Inl e, st4)
                         | (Inr _, st4) \<Rightarrow>
                             (map_sum id Some (send_file st4 (py ''result.zip'')), st4))))
            else (Inr None, st1))"

text \<open>
  \<^verbatim>\<open>index\<close>. The first argument of the result is what the caller gets: an exception
  (the framework turns it into an error response) or the response. The second is the
  list of all prompts sent to the model, given the ones sent before the request. The
  temporary directory starts empty and is gone when \<^verbatim>\<open>index\<close> returns.
\<close>

definition index ::
  "'j env \<Rightarrow> request \<Rightarrow> pystr list \<Rightarrow> (error + 'j response) \<times> pystr list" where
  "index env req sent =
     (if request_method req = POST then
        (case file_field req of
           None \<Rightarrow> (Inl BadRequestKeyError, sent)
         | Some file \<Rightarrow>
             let target_language =
                   (case target_language_field req of None \<Rightarrow> py ''en'' | Some l \<Rightarrow> l);
                 user_choice = mode_field req
             in
             (case index_body env file target_language user_choice
                     \<lparr>tmpdir = Map.empty, prompts = sent\<rparr> of
                (Inl e, st) \<Rightarrow> (Inl e, prompts st)
              | (Inr (Some resp), st) \<Rightarrow> (Inr resp, prompts st)
              | (Inr None, st) \<Rightarrow>
                  (Inr (RenderTemplate (py ''index.html'') (LANGUAGES env)), prompts st)))
      else (Inr (RenderTemplate (py ''index.html'') (LANGUAGES env)), sent))"

section \<open>The calls made on a page\<close>

text \<open>
  The calls of the two inner loops of \<^verbatim>\<open>rebuild_pdf_with_translation\<close> for the items of
  a page, with the arguments the program passes, and the test for an insertion.
\<close>

definition redactions :: "item list \<Rightarrow> page_op list" where
  "redactions page_items = map (\<lambda>it. AddRedactAnnot (bbox it) (1, 1, 1)) page_items"

definition insertions :: "item list \<Rightarrow> page_op list" where
  "insertions page_items =
     map (\<lambda>it. InsertText (fst (bbox it), fst (snd (bbox it))) (text' it) (py ''helv'') 10 (0, 0, 0))
       page_items"

fun is_insertion :: "page_op \<Rightarrow> bool" where
  "is_insertion (InsertText point s fontname fontsize color) = True"
| "is_insertion _ = False"


section \<open>Example data\<close>

text \<open>Two blocks of a page, and a page that has these two blocks and a blank one.\<close>

definition demo_items :: "item list" where
  "demo_items =
     [\<lparr>bbox = (72, 72, 300, 90), text' = py ''Bonjour''\<rparr>,
      \<lparr>bbox = (72, 100, 300, 118), text' = py ''Monde''\<rparr>]"

definition demo_page :: page where
  "demo_page =
     \<lparr>rect = (0, 0, 595, 842),
      plain_text = py ''Bonjour\<newline>Monde\<newline>'',
      blocks =
        [\<lparr>x0 = 72, y0 = 72, x1 = 300, y1 = 90, block_text = py ''Bonjour'',
          block_no = 0, block_type = 0\<rparr>,
         \<lparr>x0 = 72, y0 = 92, x1 = 300, y1 = 98, block_text = py '' \<newline>'',
          block_no = 1, block_type = 0\<rparr>,
         \<lparr>x0 = 72, y0 = 100, x1 = 300, y1 = 118, block_text = py ''Monde'',
          block_no = 2, block_type = 0\<rparr>]\<rparr>"

text \<open>A page of a text file, with the text as its one block.\<close>

definition text_page :: "pystr \<Rightarrow> page" where
  "text_page s =
     \<lparr>rect = (0, 0, 595, 842),
      plain_text = s,
      blocks = [\<lparr>x0 = 72, y0 = 72, x1 = 300, y1 = 90, block_text = s,
                block_no = 0, block_type = 0\<rparr>]\<rparr>"

text \<open>
  An environment for the examples, for a given model. A JSON value is its own text
  here, and a text parses when it starts with a brace. The upload \<^verbatim>\<open>%PDF\<close> opens as a
  PDF with the one page above; any other upload opens only under the name
  \<^verbatim>\<open>in.txt\<close>, as a text document that is not a PDF. The calls on a page succeed on a
  PDF only; applying the redactions removes the text. Two languages are configured.
\<close>

definition demo_env :: "(nat \<Rightarrow> pystr \<Rightarrow> pystr option) \<Rightarrow> pystr env" where
  "demo_env model =
     \<lparr>LANGUAGES = [py ''en'', py ''fr''],
      secure_name = (\<lambda>name. name),
      parse = (\<lambda>name f. case f of
                 Upload bytes \<Rightarrow>
                   if bytes = py ''%PDF'' then Some \<lparr>is_pdf = True, pages = [demo_page]\<rparr>
                   else if name = py ''in.txt''
                   then Some \<lparr>is_pdf = False, pages = [text_page bytes]\<rparr>
                   else None
               | _ \<Rightarrow> None),
      page_call = (\<lambda>pdf calls op p.
                 if pdf
                 then Some (case op of
                        ApplyRedactions \<Rightarrow> p\<lparr>plain_text := [], blocks := []\<rparr>
                      | _ \<Rightarrow> p)
                 else None),
      generate = model,
      loads = (\<lambda>s. if take 1 s = py ''{'' then Some s else None),
      can_dump = (\<lambda>j. True),
      can_save = (\<lambda>opened saved doc. opened \<noteq> saved \<and> is_pdf doc)\<rparr>"

definition demo_request :: "nat list \<Rightarrow> pystr option \<Rightarrow> pystr option \<Rightarrow> request" where
  "demo_request bytes language mode =
     \<lparr>request_method = POST,
      file_field = Some \<lparr>filename = py ''in.pdf'', content = bytes\<rparr>,
      target_language_field = language,
      mode_field = mode\<rparr>"

text \<open>The same request with the upload named \<^verbatim>\<open>in.txt\<close>.\<close>

definition demo_text_request :: "nat list \<Rightarrow> pystr option \<Rightarrow> pystr option \<Rightarrow> request" where
  "demo_text_request bytes language mode =
     \<lparr>request_method = POST,
      file_field = Some \<lparr>filename = py ''in.txt'', content = bytes\<rparr>,
      target_language_field = language,
      mode_field = mode\<rparr>"

section \<open>Properties of the strings\<close>

lemma split_nl_not_Nil: "split_nl s \<noteq> []"
  by (induction s) auto

lemma strip_Nil_iff: "strip s = [] \<longleftrightarrow> (\<forall>c \<in> set s. isspace c)"
proof -
  have "strip s = [] \<longleftrightarrow> dropWhile isspace s = []"
  proof (cases "dropWhile isspace s")
    case Nil
    show ?thesis unfolding strip_def Nil by simp
  next
    case (Cons c cs)
    then have "\<not> isspace c"
      using hd_dropWhile [of isspace s] by simp
    with Cons show ?thesis
      by (auto simp: strip_def dropWhile_eq_Nil_conv)
  qed
  then show ?thesis
    by (simp add: dropWhile_eq_Nil_conv)
qed

section \<open>Properties of the pairing\<close>

lemma length_translated_items_from:
  "length (translated_items_from i its sp) = length its"
  by (induction its arbitrary: i) auto

lemma bbox_translated_items_from:
  "map bbox (translated_items_from i its sp) = map bbox its"
  by (induction its arbitrary: i) auto

lemma nth_translated_items_from:
  "k < length its \<Longrightarrow>
   translated_items_from i its sp ! k =
     \<lparr>bbox = bbox (its ! k),
      text' = (if i + k < length sp then sp ! (i + k) else text' (its ! k))\<rparr>"
proof (induction its arbitrary: i k)
  case Nil
  then show ?case by simp
next
  case (Cons it its)
  show ?case
  proof (cases k)
    case 0
    then show ?thesis by simp
  next
    case (Suc m)
    with Cons.prems have "m < length its" by simp
    from Cons.IH [OF this, of "Suc i"] Suc show ?thesis by simp
  qed
qed

text \<open>
  C1. The pairing is by position. The result has as many entries as the page has
  blocks, with the bounding boxes of the blocks in their order. Entry \<open>i\<close> carries
  line \<open>i\<close> of the translated text, split at line feeds, when there is such a line, and
  the text of block \<open>i\<close> itself otherwise: from the number of lines on, every entry keeps
  the original text.
\<close>

theorem translated_items_positional:
  "length (translated_items page_items translated_text) = length page_items
   \<and> map bbox (translated_items page_items translated_text) = map bbox page_items
   \<and> (\<forall>i < length page_items.
        bbox (translated_items page_items translated_text ! i) = bbox (page_items ! i)
        \<and> (i < length (split_nl translated_text) \<longrightarrow>
             text' (translated_items page_items translated_text ! i)
               = split_nl translated_text ! i)
        \<and> (length (split_nl translated_text) \<le> i \<longrightarrow>
             text' (translated_items page_items translated_text ! i)
               = text' (page_items ! i)))"
  by (simp add: translated_items_def length_translated_items_from
      bbox_translated_items_from nth_translated_items_from)

theorem translated_items_positional_witness:
  "length (translated_items demo_items (py ''Hello'')) = 2
   \<and> map bbox (translated_items demo_items (py ''Hello'')) = [(72, 72, 300, 90), (72, 100, 300, 118)]
   \<and> text' (translated_items demo_items (py ''Hello'') ! 0) = py ''Hello''
   \<and> text' (translated_items demo_items (py ''Hello'') ! 1) = py ''Monde''"
  using translated_items_positional [of demo_items "py ''Hello''"]
  by (simp add: demo_items_def py_def All_less_Suc)

text \<open>
  C2, as stated, fails: a line of the translated text that is empty or all whitespace is
  given to its block as it is. With the two blocks of the example and the translated
  text \<^verbatim>\<open>Hello\<close> followed by a line feed, the second block gets the empty string.
\<close>

theorem translated_items_blank_counterexample:
  "strip (text' (demo_items ! 0)) \<noteq> [] \<and> strip (text' (demo_items ! 1)) \<noteq> []
   \<and> strip (text' (translated_items demo_items (py ''Hello\<newline>'') ! 1)) = []"
  by (simp add: demo_items_def py_def translated_items_def strip_def isspace_def)

text \<open>
  C2, amended. On a page whose blocks all have non-blank text, a block beyond the lines
  of the translated text keeps its own text, which is not blank; a block within the
  lines carries the line at its index as it is. So the text of an entry is blank exactly
  when there is a line at its index and that line is blank.
\<close>

theorem translated_items_blank_iff:
  assumes "\<forall>it \<in> set page_items. strip (text' it) \<noteq> []" and "i < length page_items"
  shows "(length (split_nl translated_text) \<le> i \<longrightarrow>
            text' (translated_items page_items translated_text ! i) = text' (page_items ! i)
            \<and> strip (text' (translated_items page_items translated_text ! i)) \<noteq> [])
         \<and> (i < length (split_nl translated_text) \<longrightarrow>
            text' (translated_items page_items translated_text ! i) = split_nl translated_text ! i)
         \<and> (strip (text' (translated_items page_items translated_text ! i)) = [] \<longleftrightarrow>
            i < length (split_nl translated_text) \<and> strip (split_nl translated_text ! i) = [])"
proof -
  from assms have "strip (text' (page_items ! i)) \<noteq> []"
    by simp
  with assms(2) show ?thesis
    by (simp add: translated_items_def nth_translated_items_from)
qed

theorem translated_items_blank_iff_witness:
  "strip (text' (demo_items ! 0)) \<noteq> [] \<and> strip (text' (demo_items ! 1)) \<noteq> []
   \<and> (1::nat) < length demo_items
   \<and> text' (translated_items demo_items (py ''Hello'') ! 1) = py ''Monde''
   \<and> strip (text' (translated_items demo_items (py ''Hello'') ! 1)) \<noteq> []"
proof -
  have h1: "\<forall>it \<in> set demo_items. strip (text' it) \<noteq> []"
    by (simp add: demo_items_def py_def strip_def isspace_def)
  have h2: "(1::nat) < length demo_items"
    by (simp add: demo_items_def)
  have "length (split_nl (py ''Hello'')) \<le> 1"
    by (simp add: py_def)
  with translated_items_blank_iff [OF h1 h2, of "py ''Hello''"] h1 h2 show ?thesis
    by (simp add: demo_items_def)
qed

section \<open>Properties of the extractor\<close>

lemma extract_blocks_eq:
  "extract_blocks bs acc =
     acc @ map (\<lambda>b. \<lparr>bbox = (x0 b, y0 b, x1 b, y1 b), text' = block_text b\<rparr>)
             (filter (\<lambda>b. strip (block_text b) \<noteq> []) bs)"
  by (induction bs arbitrary: acc) (simp_all add: truthy_def)

lemma extract_pages_eq:
  "extract_pages ps acc = acc @ map (\<lambda>p. extract_blocks (blocks p) []) ps"
  by (induction ps arbitrary: acc) simp_all

text \<open>
  C3. When the library opens the file, the extractor returns one list for each page, in
  the order of the pages. The list of a page has an entry for a block exactly when the
  text of the block, with the whitespace stripped at both ends, is not empty; the entries
  are in the order of the blocks, and each carries the four coordinates and the text the
  library gave, unchanged.
\<close>

theorem extract_text_with_positions_contract:
  assumes "fitz_open env st pdf_path = Inr doc"
  shows "extract_text_with_positions env st pdf_path =
           Inr (map (\<lambda>p. map (\<lambda>b. \<lparr>bbox = (x0 b, y0 b, x1 b, y1 b), text' = block_text b\<rparr>)
                          (filter (\<lambda>b. strip (block_text b) \<noteq> []) (blocks p)))
                  (pages doc))"
  using assms by (simp add: extract_text_with_positions_def extract_pages_eq extract_blocks_eq)

theorem extract_text_with_positions_contract_witness:
  "fitz_open (demo_env (\<lambda>n p. None)) \<lparr>tmpdir = [py ''in.pdf'' \<mapsto> Upload (py ''%PDF'')], prompts = []\<rparr>
      (py ''in.pdf'') = Inr \<lparr>is_pdf = True, pages = [demo_page]\<rparr>
   \<and> extract_text_with_positions (demo_env (\<lambda>n p. None))
        \<lparr>tmpdir = [py ''in.pdf'' \<mapsto> Upload (py ''%PDF'')], prompts = []\<rparr> (py ''in.pdf'')
      = Inr [demo_items]"
proof -
  have h: "fitz_open (demo_env (\<lambda>n p. None))
             \<lparr>tmpdir = [py ''in.pdf'' \<mapsto> Upload (py ''%PDF'')], prompts = []\<rparr>
             (py ''in.pdf'') = Inr \<lparr>is_pdf = True, pages = [demo_page]\<rparr>"
    by (simp add: fitz_open_def demo_env_def)
  from extract_text_with_positions_contract [OF h] h show ?thesis
    by (simp add: demo_page_def demo_items_def py_def strip_def isspace_def)
qed

section \<open>Properties of the rebuilder\<close>

lemma call_on_page_log: "snd (snd (call_on_page env pdf op pg)) = snd pg @ [op]"
  by (simp add: call_on_page_def split: option.splits)

lemma redact_items_log:
  "redact_items env pdf its pg = (r, pg') \<Longrightarrow>
   (\<exists>k. snd pg' = snd pg @ take k (redactions its))
   \<and> (r = Inr () \<longrightarrow> snd pg' = snd pg @ redactions its)"
proof (induction its arbitrary: pg)
  case Nil
  then show ?case by (auto simp: redactions_def)
next
  case (Cons it its)
  let ?op = "AddRedactAnnot (bbox it) (1, 1, 1)"
  obtain r1 pg1 where c: "call_on_page env pdf ?op pg = (r1, pg1)"
    by (cases "call_on_page env pdf ?op pg")
  from call_on_page_log [of env pdf ?op pg] c have l1: "snd pg1 = snd pg @ [?op]"
    by simp
  have red: "redactions (it # its) = ?op # redactions its"
    by (simp add: redactions_def)
  show ?case
  proof (cases r1)
    case (Inl e)
    with Cons.prems c have "pg' = pg1" "r = Inl e"
      by (simp_all add: add_redact_annot_def)
    with l1 red have "snd pg' = snd pg @ take 1 (redactions (it # its))" by simp
    with \<open>r = Inl e\<close> show ?thesis by blast
  next
    case (Inr u)
    with Cons.prems c have "redact_items env pdf its pg1 = (r, pg')"
      by (simp add: add_redact_annot_def)
    from Cons.IH [OF this] obtain k where
      k: "snd pg' = snd pg1 @ take k (redactions its)"
      and f: "r = Inr () \<longrightarrow> snd pg' = snd pg1 @ redactions its"
      by blast
    from k l1 red have "snd pg' = snd pg @ take (Suc k) (redactions (it # its))" by simp
    moreover from f l1 red have "r = Inr () \<longrightarrow> snd pg' = snd pg @ redactions (it # its)"
      by simp
    ultimately show ?thesis by blast
  qed
qed

lemma insert_items_log:
  "insert_items env pdf its pg = (r, pg') \<Longrightarrow>
   (\<exists>k. snd pg' = snd pg @ take k (insertions its))
   \<and> (r = Inr () \<longrightarrow> snd pg' = snd pg @ insertions its)"
proof (induction its arbitrary: pg)
  case Nil
  then show ?case by (auto simp: insertions_def)
next
  case (Cons it its)
  let ?op = "InsertText (fst (bbox it), fst (snd (bbox it))) (text' it) (py ''helv'') 10 (0, 0, 0)"
  obtain r1 pg1 where c: "call_on_page env pdf ?op pg = (r1, pg1)"
    by (cases "call_on_page env pdf ?op pg")
  from call_on_page_log [of env pdf ?op pg] c have l1: "snd pg1 = snd pg @ [?op]"
    by simp
  have ins: "insertions (it # its) = ?op # insertions its"
    by (simp add: insertions_def)
  show ?case
  proof (cases r1)
    case (Inl e)
    with Cons.prems c have "pg' = pg1" "r = Inl e"
      by (simp_all add: insert_text_def)
    with l1 ins have "snd pg' = snd pg @ take 1 (insertions (it # its))" by simp
    with \<open>r = Inl e\<close> show ?thesis by blast
  next
    case (Inr u)
    with Cons.prems c have "insert_items env pdf its pg1 = (r, pg')"
      by (simp add: insert_text_def)
    from Cons.IH [OF this] obtain k where
      k: "snd pg' = snd pg1 @ take k (insertions its)"
      and f: "r = Inr () \<longrightarrow> snd pg' = snd pg1 @ insertions its"
      by blast
    from k l1 ins have "snd pg' = snd pg @ take (Suc k) (insertions (it # its))" by simp
    moreover from f l1 ins have "r = Inr () \<longrightarrow> snd pg' = snd pg @ insertions (it # its)"
      by simp
    ultimately show ?thesis by blast
  qed
qed

lemma rebuild_page_log:
  assumes "rebuild_page env pdf its pg = (r, pg')"
  shows "(\<exists>k. snd pg' = snd pg @ take k (redactions its @ [ApplyRedactions] @ insertions its))
         \<and> (r = Inr () \<longrightarrow>
              snd pg' = snd pg @ redactions its @ [ApplyRedactions] @ insertions its)"
proof -
  let ?R = "redactions its" and ?I = "insertions its"
  obtain r1 pg1 where a: "redact_items env pdf its pg = (r1, pg1)"
    by (cases "redact_items env pdf its pg")
  from redact_items_log [OF a] obtain k1 where
    k1: "snd pg1 = snd pg @ take k1 ?R" and f1: "r1 = Inr () \<longrightarrow> snd pg1 = snd pg @ ?R"
    by blast
  show ?thesis
  proof (cases r1)
    case (Inl e)
    with assms a have "pg' = pg1" "r = Inl e" by (simp_all add: rebuild_page_def)
    moreover have "take k1 ?R = take (min k1 (length ?R)) (?R @ [ApplyRedactions] @ ?I)"
      by (cases "k1 \<le> length ?R") (simp_all add: min_def)
    ultimately have "snd pg' = snd pg @ take (min k1 (length ?R)) (?R @ [ApplyRedactions] @ ?I)"
      and "r \<noteq> Inr ()"
      using k1 by simp_all
    then show ?thesis by blast
  next
    case (Inr u1)
    with f1 have l1: "snd pg1 = snd pg @ ?R" by simp
    obtain r2 pg2 where b: "call_on_page env pdf ApplyRedactions pg1 = (r2, pg2)"
      by (cases "call_on_page env pdf ApplyRedactions pg1")
    from call_on_page_log [of env pdf ApplyRedactions pg1] b l1
    have l2: "snd pg2 = snd pg @ ?R @ [ApplyRedactions]" by simp
    show ?thesis
    proof (cases r2)
      case (Inl e)
      with assms a b Inr have "pg' = pg2" "r = Inl e"
        by (simp_all add: rebuild_page_def apply_redactions_def)
      moreover have "?R @ [ApplyRedactions]
          = take (Suc (length ?R)) (?R @ [ApplyRedactions] @ ?I)"
        by simp
      ultimately show ?thesis using l2 by (metis sum.distinct(1))
    next
      case u2: (Inr u2)
      with assms a b Inr have c: "insert_items env pdf its pg2 = (r, pg')"
        by (simp add: rebuild_page_def apply_redactions_def)
      from insert_items_log [OF c] obtain k3 where
        k3: "snd pg' = snd pg2 @ take k3 ?I" and f3: "r = Inr () \<longrightarrow> snd pg' = snd pg2 @ ?I"
        by blast
      have "?R @ [ApplyRedactions] @ take k3 ?I
          = take (Suc (length ?R) + k3) (?R @ [ApplyRedactions] @ ?I)"
        by simp
      with k3 l2 have "\<exists>k. snd pg' = snd pg @ take k (?R @ [ApplyRedactions] @ ?I)"
        by (metis append.assoc)
      moreover from f3 l2 have "r = Inr () \<longrightarrow> snd pg' = snd pg @ ?R @ [ApplyRedactions] @ ?I"
        by simp
      ultimately show ?thesis by blast
    qed
  qed
qed

lemma insertion_after_redaction:
  assumes "i < length (redactions its @ [ApplyRedactions] @ insertions its)"
    and "j < length (redactions its @ [ApplyRedactions] @ insertions its)"
    and "\<not> is_insertion ((redactions its @ [ApplyRedactions] @ insertions its) ! i)"
    and "is_insertion ((redactions its @ [ApplyRedactions] @ insertions its) ! j)"
  shows "i < j"
proof -
  let ?n = "length its"
  have len: "length (redactions its) = ?n" "length (insertions its) = ?n"
    by (simp_all add: redactions_def insertions_def)
  have i_le: "i \<le> ?n"
  proof (rule ccontr)
    assume "\<not> i \<le> ?n"
    then have "?n < i" by simp
    with assms(1) len have "(redactions its @ [ApplyRedactions] @ insertions its) ! i
        = insertions its ! (i - ?n - 1)" and "i - ?n - 1 < ?n"
      by (auto simp: nth_append nth_Cons')
    with assms(3) show False by (simp add: insertions_def)
  qed
  have j_gt: "?n < j"
  proof (rule ccontr)
    assume "\<not> ?n < j"
    then have "j \<le> ?n" by simp
    then have "\<not> is_insertion ((redactions its @ [ApplyRedactions] @ insertions its) ! j)"
      using len by (cases "j < ?n") (auto simp: nth_append redactions_def)
    with assms(4) show False by simp
  qed
  from i_le j_gt show ?thesis by simp
qed

lemma nth_take_prefix:
  "i < length (take k xs) \<Longrightarrow> i < length xs \<and> take k xs ! i = xs ! i"
  by simp

lemma insertion_after_redaction_prefix:
  assumes "i < length (take k (redactions its @ [ApplyRedactions] @ insertions its))"
    and "j < length (take k (redactions its @ [ApplyRedactions] @ insertions its))"
    and "\<not> is_insertion (take k (redactions its @ [ApplyRedactions] @ insertions its) ! i)"
    and "is_insertion (take k (redactions its @ [ApplyRedactions] @ insertions its) ! j)"
  shows "i < j"
proof -
  define full where "full = redactions its @ [ApplyRedactions] @ insertions its"
  have a: "i < length (take k full)" "j < length (take k full)"
    "\<not> is_insertion (take k full ! i)" "is_insertion (take k full ! j)"
    unfolding full_def by (fact assms)+
  from nth_take_prefix [OF a(1)] nth_take_prefix [OF a(2)] a(3,4)
  have "i < length full" "j < length full" "\<not> is_insertion (full ! i)" "is_insertion (full ! j)"
    by simp_all
  then show ?thesis
    unfolding full_def by (rule insertion_after_redaction)
qed

lemma rebuild_pages_log:
  "rebuild_pages env pdf n pgs tt = Inr out \<Longrightarrow>
   length out = length pgs \<and>
   (\<forall>k < length pgs.
      snd (out ! k) =
        snd (pgs ! k) @ redactions (tt ! (n + k)) @ [ApplyRedactions] @ insertions (tt ! (n + k)))"
proof (induction pgs arbitrary: n out)
  case Nil
  then show ?case by simp
next
  case (Cons pg pgs)
  from Cons.prems have n: "n < length tt"
    by (simp split: if_splits)
  obtain r1 pg1 where p: "rebuild_page env pdf (tt ! n) pg = (r1, pg1)"
    by (cases "rebuild_page env pdf (tt ! n) pg")
  from Cons.prems n p obtain u where u: "r1 = Inr u"
    by (cases r1) simp_all
  from Cons.prems n p u obtain out' where
    r: "rebuild_pages env pdf (Suc n) pgs tt = Inr out'" and o: "out = pg1 # out'"
    by (cases "rebuild_pages env pdf (Suc n) pgs tt") simp_all
  from rebuild_page_log [OF p] u
  have l: "snd pg1 = snd pg @ redactions (tt ! n) @ [ApplyRedactions] @ insertions (tt ! n)"
    by simp
  from Cons.IH [OF r] have ih: "length out' = length pgs"
    "\<And>k. k < length pgs \<Longrightarrow>
       snd (out' ! k) =
         snd (pgs ! k) @ redactions (tt ! (Suc n + k)) @ [ApplyRedactions]
           @ insertions (tt ! (Suc n + k))"
    by simp_all
  show ?case
  proof (intro conjI allI impI)
    show "length out = length (pg # pgs)" using o ih(1) by simp
  next
    fix k assume "k < length (pg # pgs)"
    then show "snd (out ! k) =
        snd ((pg # pgs) ! k) @ redactions (tt ! (n + k)) @ [ApplyRedactions]
          @ insertions (tt ! (n + k))"
      using o l ih(2) by (cases k) simp_all
  qed
qed

text \<open>The calls keep the rectangle of a page when the library keeps it at each call.\<close>

lemma call_on_page_rect:
  assumes "\<And>b calls c p p'. page_call env b calls c p = Some p' \<Longrightarrow> rect p' = rect p"
  shows "rect (fst (snd (call_on_page env pdf op pg))) = rect (fst pg)"
  using assms by (auto simp: call_on_page_def split: option.splits)

lemma redact_items_rect:
  assumes "\<And>b calls c p p'. page_call env b calls c p = Some p' \<Longrightarrow> rect p' = rect p"
  shows "rect (fst (snd (redact_items env pdf its pg))) = rect (fst pg)"
proof (induction its arbitrary: pg)
  case Nil
  show ?case by simp
next
  case (Cons it its)
  let ?op = "AddRedactAnnot (bbox it) (1, 1, 1)"
  obtain r1 pg1 where c: "call_on_page env pdf ?op pg = (r1, pg1)"
    by (cases "call_on_page env pdf ?op pg")
  from call_on_page_rect [of env pdf ?op pg] assms c have "rect (fst pg1) = rect (fst pg)"
    by simp
  with c Cons.IH [of pg1] show ?case
    by (cases r1) (simp_all add: add_redact_annot_def)
qed

lemma insert_items_rect:
  assumes "\<And>b calls c p p'. page_call env b calls c p = Some p' \<Longrightarrow> rect p' = rect p"
  shows "rect (fst (snd (insert_items env pdf its pg))) = rect (fst pg)"
proof (induction its arbitrary: pg)
  case Nil
  show ?case by simp
next
  case (Cons it its)
  let ?op = "InsertText (fst (bbox it), fst (snd (bbox it))) (text' it) (py ''helv'') 10 (0, 0, 0)"
  obtain r1 pg1 where c: "call_on_page env pdf ?op pg = (r1, pg1)"
    by (cases "call_on_page env pdf ?op pg")
  from call_on_page_rect [of env pdf ?op pg] assms c have "rect (fst pg1) = rect (fst pg)"
    by simp
  with c Cons.IH [of pg1] show ?case
    by (cases r1) (simp_all add: insert_text_def)
qed

lemma rebuild_page_rect:
  assumes "\<And>b calls c p p'. page_call env b calls c p = Some p' \<Longrightarrow> rect p' = rect p"
  shows "rect (fst (snd (rebuild_page env pdf its pg))) = rect (fst pg)"
proof -
  obtain r1 pg1 where a: "redact_items env pdf its pg = (r1, pg1)"
    by (cases "redact_items env pdf its pg")
  from redact_items_rect [of env pdf its pg] assms a have e1: "rect (fst pg1) = rect (fst pg)"
    by simp
  obtain r2 pg2 where b: "call_on_page env pdf ApplyRedactions pg1 = (r2, pg2)"
    by (cases "call_on_page env pdf ApplyRedactions pg1")
  from call_on_page_rect [of env pdf ApplyRedactions pg1] assms b e1
  have e2: "rect (fst pg2) = rect (fst pg)"
    by simp
  from insert_items_rect [of env pdf its pg2] assms e2
  have e3: "rect (fst (snd (insert_items env pdf its pg2))) = rect (fst pg)"
    by simp
  from a b e1 e2 e3 show ?thesis
    by (cases r1; cases r2) (simp_all add: rebuild_page_def apply_redactions_def)
qed

lemma rebuild_pages_rect:
  assumes f: "\<And>b calls c p p'. page_call env b calls c p = Some p' \<Longrightarrow> rect p' = rect p"
  shows "rebuild_pages env pdf n pgs tt = Inr out \<Longrightarrow>
         map (\<lambda>pg. rect (fst pg)) out = map (\<lambda>pg. rect (fst pg)) pgs"
proof (induction pgs arbitrary: n out)
  case Nil
  then show ?case by simp
next
  case (Cons pg pgs)
  from Cons.prems have n: "n < length tt"
    by (simp split: if_splits)
  obtain r1 pg1 where p: "rebuild_page env pdf (tt ! n) pg = (r1, pg1)"
    by (cases "rebuild_page env pdf (tt ! n) pg")
  from Cons.prems n p obtain u where u: "r1 = Inr u"
    by (cases r1) simp_all
  from Cons.prems n p u obtain out' where
    r: "rebuild_pages env pdf (Suc n) pgs tt = Inr out'" and o: "out = pg1 # out'"
    by (cases "rebuild_pages env pdf (Suc n) pgs tt") simp_all
  from rebuild_page_rect [of env pdf "tt ! n" pg] f p have "rect (fst pg1) = rect (fst pg)"
    by simp
  with Cons.IH [OF r] o show ?case by simp
qed

text \<open>The loops end without an exception when no call of the library raises.\<close>

lemma call_on_page_returns:
  assumes "\<And>calls c p. page_call env pdf calls c p \<noteq> None"
  shows "fst (call_on_page env pdf op pg) = Inr ()"
  using assms [of "snd pg" op "fst pg"] by (auto simp: call_on_page_def split: option.splits)

lemma redact_items_returns:
  assumes "\<And>calls c p. page_call env pdf calls c p \<noteq> None"
  shows "fst (redact_items env pdf its pg) = Inr ()"
proof (induction its arbitrary: pg)
  case Nil
  show ?case by simp
next
  case (Cons it its)
  let ?op = "AddRedactAnnot (bbox it) (1, 1, 1)"
  obtain r1 pg1 where c: "call_on_page env pdf ?op pg = (r1, pg1)"
    by (cases "call_on_page env pdf ?op pg")
  from call_on_page_returns [of env pdf ?op pg] assms c have "r1 = Inr ()" by simp
  with c Cons.IH [of pg1] show ?case
    by (simp add: add_redact_annot_def)
qed

lemma insert_items_returns:
  assumes "\<And>calls c p. page_call env pdf calls c p \<noteq> None"
  shows "fst (insert_items env pdf its pg) = Inr ()"
proof (induction its arbitrary: pg)
  case Nil
  show ?case by simp
next
  case (Cons it its)
  let ?op = "InsertText (fst (bbox it), fst (snd (bbox it))) (text' it) (py ''helv'') 10 (0, 0, 0)"
  obtain r1 pg1 where c: "call_on_page env pdf ?op pg = (r1, pg1)"
    by (cases "call_on_page env pdf ?op pg")
  from call_on_page_returns [of env pdf ?op pg] assms c have "r1 = Inr ()" by simp
  with c Cons.IH [of pg1] show ?case
    by (simp add: insert_text_def)
qed

lemma rebuild_page_returns:
  assumes "\<And>calls c p. page_call env pdf calls c p \<noteq> None"
  shows "fst (rebuild_page env pdf its pg) = Inr ()"
proof -
  obtain r1 pg1 where a: "redact_items env pdf its pg = (r1, pg1)"
    by (cases "redact_items env pdf its pg")
  from redact_items_returns [of env pdf its pg] assms a have r1: "r1 = Inr ()" by simp
  obtain r2 pg2 where b: "call_on_page env pdf ApplyRedactions pg1 = (r2, pg2)"
    by (cases "call_on_page env pdf ApplyRedactions pg1")
  from call_on_page_returns [of env pdf ApplyRedactions pg1] assms b have r2: "r2 = Inr ()"
    by simp
  from insert_items_returns [of env pdf its pg2] assms a b r1 r2 show ?thesis
    by (simp add: rebuild_page_def apply_redactions_def)
qed

lemma rebuild_pages_total:
  assumes t: "\<And>calls c p. page_call env pdf calls c p \<noteq> None"
  shows "n + length pgs \<le> length tt \<Longrightarrow> \<exists>out. rebuild_pages env pdf n pgs tt = Inr out"
proof (induction pgs arbitrary: n)
  case Nil
  then show ?case by simp
next
  case (Cons pg pgs)
  then have "Suc n + length pgs \<le> length tt" by simp
  from Cons.IH [OF this] obtain out where o: "rebuild_pages env pdf (Suc n) pgs tt = Inr out" ..
  obtain r1 pg1 where p: "rebuild_page env pdf (tt ! n) pg = (r1, pg1)"
    by (cases "rebuild_page env pdf (tt ! n) pg")
  from rebuild_page_returns [of env pdf "tt ! n" pg] t p have "r1 = Inr ()" by simp
  with Cons.prems o p show ?case by simp
qed

lemma rebuild_pdf_with_translation_Inr:
  assumes o: "fitz_open env st pdf_path = Inr doc"
    and r: "rebuild_pdf_with_translation env pdf_path tt output_path st = (Inr u, st')"
  shows "\<exists>out. rebuild_pages env (is_pdf doc) 0 (map (\<lambda>p. (p, [])) (pages doc)) tt = Inr out
           \<and> st' = st\<lparr>tmpdir := (tmpdir st)(output_path \<mapsto> PdfFile (map fst out))\<rparr>"
proof (cases "rebuild_pages env (is_pdf doc) 0 (map (\<lambda>p. (p, [])) (pages doc)) tt")
  case (Inl e)
  with o r show ?thesis by (simp add: rebuild_pdf_with_translation_def)
next
  case (Inr out)
  show ?thesis
  proof (cases "can_save env pdf_path output_path \<lparr>is_pdf = is_pdf doc, pages = map fst out\<rparr>")
    case True
    with o r Inr show ?thesis by (simp add: rebuild_pdf_with_translation_def)
  next
    case False
    with o r Inr show ?thesis by (simp add: rebuild_pdf_with_translation_def)
  qed
qed


lemma demo_page_call:
  "page_call (demo_env model) pdf calls op p =
     (if pdf
      then Some (case op of ApplyRedactions \<Rightarrow> p\<lparr>plain_text := [], blocks := []\<rparr> | _ \<Rightarrow> p)
      else None)"
  by (simp add: demo_env_def)


text \<open>
  C5. On every page the rebuilder works on, the calls are made in this order: one
  redaction annotation for each item, then \<^verbatim>\<open>apply_redactions\<close>, then one insertion for
  each item. When a call raises, the calls made on the page are the first ones of this
  list; when none raises, they are the whole list. In the list and in each of its
  beginnings, every call that is not an insertion (an annotation or the application of
  the redactions) comes before every insertion. When the loop over the pages ends
  without an exception, the whole list is the list of calls of each page of the
  document.
\<close>

theorem rebuild_redacts_before_inserting:
  "(\<exists>k. snd (snd (rebuild_page env pdf page_items pg)) =
          snd pg @ take k (redactions page_items @ [ApplyRedactions] @ insertions page_items))
   \<and> (fst (rebuild_page env pdf page_items pg) = Inr () \<longrightarrow>
        snd (snd (rebuild_page env pdf page_items pg)) =
          snd pg @ redactions page_items @ [ApplyRedactions] @ insertions page_items)
   \<and> (\<forall>k i j.
          i < length (take k (redactions page_items @ [ApplyRedactions] @ insertions page_items))
          \<and> j < length (take k (redactions page_items @ [ApplyRedactions] @ insertions page_items))
          \<and> \<not> is_insertion
                (take k (redactions page_items @ [ApplyRedactions] @ insertions page_items) ! i)
          \<and> is_insertion
                (take k (redactions page_items @ [ApplyRedactions] @ insertions page_items) ! j)
          \<longrightarrow> i < j)
   \<and> (rebuild_pages env pdf 0 (map (\<lambda>p. (p, [])) doc) translated_texts = Inr out \<longrightarrow>
        length out = length doc
        \<and> (\<forall>n < length doc.
              snd (out ! n) =
                redactions (translated_texts ! n) @ [ApplyRedactions]
                  @ insertions (translated_texts ! n)))"
proof -
  obtain r pg' where p: "rebuild_page env pdf page_items pg = (r, pg')"
    by (cases "rebuild_page env pdf page_items pg")
  from rebuild_page_log [OF p] p
  have a: "\<exists>k. snd (snd (rebuild_page env pdf page_items pg)) =
          snd pg @ take k (redactions page_items @ [ApplyRedactions] @ insertions page_items)"
    and b: "fst (rebuild_page env pdf page_items pg) = Inr () \<longrightarrow>
        snd (snd (rebuild_page env pdf page_items pg)) =
          snd pg @ redactions page_items @ [ApplyRedactions] @ insertions page_items"
    by simp_all
  have c: "i < j"
    if "i < length (take k (redactions page_items @ [ApplyRedactions] @ insertions page_items))
          \<and> j < length (take k (redactions page_items @ [ApplyRedactions] @ insertions page_items))
          \<and> \<not> is_insertion
                (take k (redactions page_items @ [ApplyRedactions] @ insertions page_items) ! i)
          \<and> is_insertion
                (take k (redactions page_items @ [ApplyRedactions] @ insertions page_items) ! j)"
    for k i j
    using that insertion_after_redaction_prefix [of i k page_items j] by blast
  have d: "length out = length doc
        \<and> (\<forall>n < length doc.
              snd (out ! n) =
                redactions (translated_texts ! n) @ [ApplyRedactions]
                  @ insertions (translated_texts ! n))"
    if r: "rebuild_pages env pdf 0 (map (\<lambda>p. (p, [])) doc) translated_texts = Inr out"
    using rebuild_pages_log [OF r] by simp
  from a b c d show ?thesis by blast
qed

theorem rebuild_redacts_before_inserting_witness:
  "snd (snd (rebuild_page (demo_env (\<lambda>n p. None)) True demo_items (demo_page, []))) =
     [AddRedactAnnot (72, 72, 300, 90) (1, 1, 1),
      AddRedactAnnot (72, 100, 300, 118) (1, 1, 1),
      ApplyRedactions,
      InsertText (72, 72) (py ''Bonjour'') (py ''helv'') 10 (0, 0, 0),
      InsertText (72, 100) (py ''Monde'') (py ''helv'') 10 (0, 0, 0)]
   \<and> snd (snd (rebuild_page (demo_env (\<lambda>n p. None)) False demo_items (demo_page, []))) =
     [AddRedactAnnot (72, 72, 300, 90) (1, 1, 1)]
   \<and> \<not> is_insertion ((redactions demo_items @ [ApplyRedactions] @ insertions demo_items) ! 2)
   \<and> is_insertion ((redactions demo_items @ [ApplyRedactions] @ insertions demo_items) ! 3)
   \<and> (2::nat) < 3"
proof -
  let ?env = "demo_env (\<lambda>n p. None)"
  let ?full = "redactions demo_items @ [ApplyRedactions] @ insertions demo_items"
  note t = rebuild_redacts_before_inserting
    [of ?env True demo_items "(demo_page, [])" "[]" "[]" "[]"]
  have ok: "fst (rebuild_page ?env True demo_items (demo_page, [])) = Inr ()"
    by (simp add: rebuild_page_def demo_items_def add_redact_annot_def apply_redactions_def
        insert_text_def call_on_page_def demo_page_call)
  with t have "snd (snd (rebuild_page ?env True demo_items (demo_page, []))) = [] @ ?full"
    by simp
  then have a: "snd (snd (rebuild_page ?env True demo_items (demo_page, []))) =
     [AddRedactAnnot (72, 72, 300, 90) (1, 1, 1),
      AddRedactAnnot (72, 100, 300, 118) (1, 1, 1),
      ApplyRedactions,
      InsertText (72, 72) (py ''Bonjour'') (py ''helv'') 10 (0, 0, 0),
      InsertText (72, 100) (py ''Monde'') (py ''helv'') 10 (0, 0, 0)]"
    by (simp add: redactions_def insertions_def demo_items_def)
  have b: "snd (snd (rebuild_page ?env False demo_items (demo_page, []))) =
     [AddRedactAnnot (72, 72, 300, 90) (1, 1, 1)]"
    by (simp add: rebuild_page_def demo_items_def add_redact_annot_def call_on_page_def
        demo_page_call)
  have c: "\<not> is_insertion (?full ! 2)" "is_insertion (?full ! 3)"
    by (simp_all add: redactions_def insertions_def demo_items_def)
  have l: "(2::nat) < length (take 5 ?full)" "(3::nat) < length (take 5 ?full)"
    "take 5 ?full ! 2 = ?full ! 2" "take 5 ?full ! 3 = ?full ! 3"
    by (simp_all add: redactions_def insertions_def demo_items_def)
  from t have "(2::nat) < length (take 5 ?full) \<and> (3::nat) < length (take 5 ?full)
      \<and> \<not> is_insertion (take 5 ?full ! 2) \<and> is_insertion (take 5 ?full ! 3)
      \<longrightarrow> (2::nat) < 3"
    by blast
  with l c have "(2::nat) < 3" by simp
  with a b c show ?thesis by simp
qed

text \<open>
  C6. Suppose the library keeps the rectangle of a page at each of its three calls.
  Then, when the rebuilder returns, the document it saved has as many pages as the
  input, and each page has the rectangle of the input page at its place: the same number
  of pages and the same dimensions. The rebuilder does return when the library opens
  the input, there is a list of items for every page, none of the calls on the pages
  raises, and the library can save.
\<close>

theorem rebuild_preserves_pages:
  assumes "fitz_open env st pdf_path = Inr doc"
    and "\<forall>b calls c p p'. page_call env b calls c p = Some p' \<longrightarrow> rect p' = rect p"
  shows "(rebuild_pdf_with_translation env pdf_path translated_texts output_path st = (Inr (), st')
          \<longrightarrow> (\<exists>out. tmpdir st' output_path = Some (PdfFile out)
                 \<and> length out = length (pages doc)
                 \<and> map rect out = map rect (pages doc)))
       \<and> (length (pages doc) \<le> length translated_texts
          \<and> (\<forall>calls c p. page_call env (is_pdf doc) calls c p \<noteq> None)
          \<and> (\<forall>ps. can_save env pdf_path output_path \<lparr>is_pdf = is_pdf doc, pages = ps\<rparr>)
          \<longrightarrow> (\<exists>st''. rebuild_pdf_with_translation env pdf_path translated_texts output_path st
                   = (Inr (), st'')))"
proof (intro conjI impI)
  assume r: "rebuild_pdf_with_translation env pdf_path translated_texts output_path st = (Inr (), st')"
  from rebuild_pdf_with_translation_Inr [OF assms(1) r] obtain out where
    p: "rebuild_pages env (is_pdf doc) 0 (map (\<lambda>p. (p, [])) (pages doc)) translated_texts = Inr out"
    and s: "st' = st\<lparr>tmpdir := (tmpdir st)(output_path \<mapsto> PdfFile (map fst out))\<rparr>"
    by blast
  from assms(2) have f: "\<And>b calls c p p'. page_call env b calls c p = Some p' \<Longrightarrow> rect p' = rect p"
    by blast
  from rebuild_pages_rect [OF f p]
  have "map (\<lambda>pg. rect (fst pg)) out = map (\<lambda>pg. rect (fst pg)) (map (\<lambda>p. (p, [])) (pages doc))"
    by simp
  then have d: "map rect (map fst out) = map rect (pages doc)"
    by (simp add: comp_def)
  from rebuild_pages_log [OF p] have "length out = length (pages doc)" by simp
  then have len: "length (map fst out) = length (pages doc)" by simp
  from s have "tmpdir st' output_path = Some (PdfFile (map fst out))" by simp
  with len d show "\<exists>out. tmpdir st' output_path = Some (PdfFile out)
      \<and> length out = length (pages doc) \<and> map rect out = map rect (pages doc)"
    by blast
next
  assume a: "length (pages doc) \<le> length translated_texts
          \<and> (\<forall>calls c p. page_call env (is_pdf doc) calls c p \<noteq> None)
          \<and> (\<forall>ps. can_save env pdf_path output_path \<lparr>is_pdf = is_pdf doc, pages = ps\<rparr>)"
  then have t: "\<And>calls c p. page_call env (is_pdf doc) calls c p \<noteq> None"
    and l: "0 + length (map (\<lambda>p. (p, [])) (pages doc)) \<le> length translated_texts"
    and c: "\<And>ps. can_save env pdf_path output_path \<lparr>is_pdf = is_pdf doc, pages = ps\<rparr>"
    by simp_all
  from rebuild_pages_total [OF t l] obtain out where
    "rebuild_pages env (is_pdf doc) 0 (map (\<lambda>p. (p, [])) (pages doc)) translated_texts = Inr out"
    by blast
  with assms(1) c show "\<exists>st''. rebuild_pdf_with_translation env pdf_path translated_texts output_path st
      = (Inr (), st'')"
    by (simp add: rebuild_pdf_with_translation_def)
qed

theorem rebuild_preserves_pages_witness:
  "fitz_open (demo_env (\<lambda>n p. None))
     \<lparr>tmpdir = [py ''in.pdf'' \<mapsto> Upload (py ''%PDF'')], prompts = []\<rparr> (py ''in.pdf'')
     = Inr \<lparr>is_pdf = True, pages = [demo_page]\<rparr>
   \<and> rebuild_pdf_with_translation (demo_env (\<lambda>n p. None)) (py ''in.pdf'') [demo_items]
         (py ''translated.pdf'')
         \<lparr>tmpdir = [py ''in.pdf'' \<mapsto> Upload (py ''%PDF'')], prompts = []\<rparr>
     = (Inr (),
        \<lparr>tmpdir = [py ''in.pdf'' \<mapsto> Upload (py ''%PDF''),
                   py ''translated.pdf'' \<mapsto>
                     PdfFile [demo_page\<lparr>plain_text := [], blocks := []\<rparr>]],
         prompts = []\<rparr>)
   \<and> length [demo_page\<lparr>plain_text := [], blocks := []\<rparr>] = length [demo_page]
   \<and> map rect [demo_page\<lparr>plain_text := [], blocks := []\<rparr>] = map rect [demo_page]"
proof -
  let ?env = "demo_env (\<lambda>n p. None)"
  let ?st = "\<lparr>tmpdir = [py ''in.pdf'' \<mapsto> Upload (py ''%PDF'')], prompts = []\<rparr> :: pystr state"
  let ?out = "[demo_page\<lparr>plain_text := [], blocks := []\<rparr>]"
  let ?st' = "\<lparr>tmpdir = [py ''in.pdf'' \<mapsto> Upload (py ''%PDF''),
                         py ''translated.pdf'' \<mapsto> PdfFile ?out],
               prompts = []\<rparr> :: pystr state"
  have h: "fitz_open ?env ?st (py ''in.pdf'') = Inr \<lparr>is_pdf = True, pages = [demo_page]\<rparr>"
    by (simp add: fitz_open_def demo_env_def)
  have f: "\<forall>b calls c p p'. page_call ?env b calls c p = Some p' \<longrightarrow> rect p' = rect p"
    by (auto simp: demo_page_call split: if_splits page_op.splits)
  have n: "py ''in.pdf'' \<noteq> py ''translated.pdf''"
    by (simp add: py_def)
  have cs: "can_save ?env (py ''in.pdf'') (py ''translated.pdf'') d = is_pdf d" for d
    by (simp add: demo_env_def n)
  have pg: "rebuild_page ?env True demo_items (demo_page, [])
      = (Inr (), (demo_page\<lparr>plain_text := [], blocks := []\<rparr>,
                  redactions demo_items @ [ApplyRedactions] @ insertions demo_items))"
    by (simp add: rebuild_page_def demo_items_def add_redact_annot_def apply_redactions_def
        insert_text_def call_on_page_def demo_page_call redactions_def insertions_def)
  have e: "rebuild_pdf_with_translation ?env (py ''in.pdf'') [demo_items] (py ''translated.pdf'') ?st
      = (Inr (), ?st')"
    by (simp add: rebuild_pdf_with_translation_def h pg cs)
  from rebuild_preserves_pages [OF h f, of "[demo_items]" "py ''translated.pdf''" ?st'] e
  obtain out where "tmpdir ?st' (py ''translated.pdf'') = Some (PdfFile out)"
    "length out = length [demo_page]" "map rect out = map rect [demo_page]"
    by auto
  then have "length ?out = length [demo_page]" "map rect ?out = map rect [demo_page]"
    by simp_all
  with h e show ?thesis by blast
qed

section \<open>Effects of the parts of the handler on the state\<close>

lemma call_gemini_state:
  "call_gemini env p st = (r, st') \<Longrightarrow> tmpdir st' = tmpdir st \<and> prompts st' = prompts st @ [p]"
  by (auto simp: call_gemini_def)

lemma fitz_open_cong:
  "tmpdir st' = tmpdir st \<Longrightarrow> fitz_open env st' path = fitz_open env st path"
  by (simp add: fitz_open_def)

lemma translate_pages_state:
  "translate_pages env lang pages_data acc st = (r, st') \<Longrightarrow>
   tmpdir st' = tmpdir st \<and>
   (\<exists>ps. prompts st' = prompts st @ ps \<and> (\<forall>p \<in> set ps. \<exists>t. p = prompt_translate t lang))"
proof (induction pages_data arbitrary: acc st)
  case Nil
  then show ?case by simp
next
  case (Cons page_items rest)
  let ?p = "prompt_translate (join_nl (map text' page_items)) lang"
  obtain r1 st1 where c: "call_gemini env ?p st = (r1, st1)"
    by (cases "call_gemini env ?p st")
  from call_gemini_state [OF c] have s1: "tmpdir st1 = tmpdir st" "prompts st1 = prompts st @ [?p]"
    by simp_all
  show ?case
  proof (cases r1)
    case (Inl e)
    with Cons.prems c have "st' = st1" by (simp add: Let_def)
    with s1 show ?thesis by auto
  next
    case (Inr translated_text)
    with Cons.prems c have
      "translate_pages env lang rest (acc @ [translated_items page_items translated_text]) st1 = (r, st')"
      by (simp add: Let_def)
    from Cons.IH [OF this] obtain ps where
      "tmpdir st' = tmpdir st1" "prompts st' = prompts st1 @ ps"
      "\<forall>p \<in> set ps. \<exists>t. p = prompt_translate t lang"
      by blast
    with s1 have "tmpdir st' = tmpdir st" "prompts st' = prompts st @ (?p # ps)"
      "\<forall>p \<in> set (?p # ps). \<exists>t. p = prompt_translate t lang"
      by auto
    then show ?thesis by blast
  qed
qed

lemma rebuild_pdf_with_translation_state:
  assumes "rebuild_pdf_with_translation env pdf_path tt output_path st = (r, st')"
  shows "prompts st' = prompts st \<and>
         (case r of Inl e \<Rightarrow> st' = st
          | Inr u \<Rightarrow> \<exists>out. tmpdir st' = (tmpdir st)(output_path \<mapsto> PdfFile out))"
proof (cases "fitz_open env st pdf_path")
  case (Inl e)
  with assms show ?thesis by (auto simp: rebuild_pdf_with_translation_def)
next
  case (Inr doc)
  show ?thesis
  proof (cases "rebuild_pages env (is_pdf doc) 0 (map (\<lambda>p. (p, [])) (pages doc)) tt")
    case (Inl e)
    with assms \<open>fitz_open env st pdf_path = Inr doc\<close> show ?thesis
      by (auto simp: rebuild_pdf_with_translation_def)
  next
    case out: (Inr out)
    show ?thesis
    proof (cases "can_save env pdf_path output_path \<lparr>is_pdf = is_pdf doc, pages = map fst out\<rparr>")
      case True
      with assms Inr out show ?thesis by (auto simp: rebuild_pdf_with_translation_def)
    next
      case False
      with assms Inr out show ?thesis by (auto simp: rebuild_pdf_with_translation_def)
    qed
  qed
qed

lemma structured_branch_state:
  assumes "structured_branch env doc_text lang st = (r, st')"
  shows "prompts st' = prompts st @ [prompt_json doc_text lang] \<and>
         (case r of Inl e \<Rightarrow> True
          | Inr u \<Rightarrow> \<exists>j. tmpdir st' = (tmpdir st)(py ''output.json'' \<mapsto> JsonFile j))"
proof -
  let ?p = "prompt_json doc_text lang"
  obtain r1 st1 where c: "call_gemini env ?p st = (r1, st1)"
    by (cases "call_gemini env ?p st")
  from call_gemini_state [OF c] have s1: "tmpdir st1 = tmpdir st" "prompts st1 = prompts st @ [?p]"
    by simp_all
  show ?thesis
  proof (cases r1)
    case (Inl e)
    with assms c s1 show ?thesis by (auto simp: structured_branch_def)
  next
    case (Inr gemini_output)
    show ?thesis
    proof (cases "loads env gemini_output")
      case None
      with assms c s1 Inr show ?thesis by (auto simp: structured_branch_def)
    next
      case (Some j)
      show ?thesis
      proof (cases "can_dump env j")
        case True
        with assms c s1 Inr Some show ?thesis by (auto simp: structured_branch_def)
      next
        case False
        with assms c s1 Inr Some show ?thesis by (auto simp: structured_branch_def)
      qed
    qed
  qed
qed

lemma rebuild_branch_state:
  assumes "rebuild_branch env input_pdf_path lang st = (r, st')"
  shows "(\<exists>ps. prompts st' = prompts st @ ps \<and> (\<forall>p \<in> set ps. \<exists>t. p = prompt_translate t lang)) \<and>
         (case r of Inl e \<Rightarrow> tmpdir st' = tmpdir st
          | Inr u \<Rightarrow> \<exists>out. tmpdir st' = (tmpdir st)(py ''translated.pdf'' \<mapsto> PdfFile out))"
proof (cases "extract_text_with_positions env st input_pdf_path")
  case (Inl e)
  with assms have "st' = st" "r = Inl e" by (auto simp: rebuild_branch_def)
  then show ?thesis by simp
next
  case (Inr pages_data)
  obtain r1 st1 where t: "translate_pages env lang pages_data [] st = (r1, st1)"
    by (cases "translate_pages env lang pages_data [] st")
  from translate_pages_state [OF t] obtain ps where
    s1: "tmpdir st1 = tmpdir st" "prompts st1 = prompts st @ ps"
      "\<forall>p \<in> set ps. \<exists>t. p = prompt_translate t lang"
    by blast
  show ?thesis
  proof (cases r1)
    case (Inl e)
    with assms Inr t have "st' = st1" "r = Inl e" by (auto simp: rebuild_branch_def)
    with s1 show ?thesis by auto
  next
    case tp: (Inr translated_pages)
    with assms Inr t have
      "rebuild_pdf_with_translation env input_pdf_path translated_pages (py ''translated.pdf'') st1
         = (r, st')"
      by (simp add: rebuild_branch_def)
    from rebuild_pdf_with_translation_state [OF this] s1 show ?thesis
      by (cases r) auto
  qed
qed

section \<open>The example request\<close>

lemma demo_request_simps:
  "request_method (demo_request bytes language mode) = POST"
  "file_field (demo_request bytes language mode) = Some \<lparr>filename = py ''in.pdf'', content = bytes\<rparr>"
  "target_language_field (demo_request bytes language mode) = language"
  "mode_field (demo_request bytes language mode) = mode"
  by (simp_all add: demo_request_def)

lemma demo_env_simps:
  "secure_name (demo_env model) name = name"
  "parse (demo_env model) name (Upload (py ''%PDF'')) = Some \<lparr>is_pdf = True, pages = [demo_page]\<rparr>"
  "generate (demo_env model) = model"
  "LANGUAGES (demo_env model) = [py ''en'', py ''fr'']"
  "can_save (demo_env model) opened saved doc \<longleftrightarrow> opened \<noteq> saved \<and> is_pdf doc"
  "loads (demo_env model) s = (if take 1 s = py ''{'' then Some s else None)"
  "can_dump (demo_env model) j"
  by (simp_all add: demo_env_def)

lemma demo_names:
  "py ''in.pdf'' \<noteq> []" "py ''in.pdf'' \<noteq> py ''output.json''" "py ''in.pdf'' \<noteq> py ''translated.pdf''"
  "py ''in.pdf'' \<noteq> py ''result.zip''"
  by (simp_all add: py_def)

lemma demo_plain_text:
  "foldl (\<lambda>t p. t @ plain_text p) [] (pages \<lparr>is_pdf = True, pages = [demo_page]\<rparr>)
     = py ''Bonjour\<newline>Monde\<newline>''"
  by (simp add: demo_page_def)

section \<open>Properties of the handler\<close>

lemma mode_names_distinct:
  "py ''json'' \<noteq> py ''pdf''" "py ''json'' \<noteq> py ''both''" "py ''pdf'' \<noteq> py ''both''"
  "py ''output.json'' \<noteq> py ''translated.pdf''"
  by (simp_all add: py_def)

lemma index_body_unreadable:
  assumes "secure_name env (filename file) \<noteq> []"
    and "parse env (secure_name env (filename file)) (Upload (content file)) = None"
  shows "index_body env file lang user_choice st =
           (Inl FileDataError,
            st\<lparr>tmpdir := (tmpdir st)(secure_name env (filename file) \<mapsto> Upload (content file))\<rparr>)"
  using assms by (simp add: index_body_def fitz_open_def Let_def)

lemma index_body_readable:
  assumes "secure_name env (filename file) = name" and "name \<noteq> []"
    and "parse env (secure_name env (filename file)) (Upload (content file)) = Some doc"
  shows "fitz_open env (st\<lparr>tmpdir := (tmpdir st)(name \<mapsto> Upload (content file))\<rparr>) name = Inr doc"
  using assms by (simp add: fitz_open_def)

text \<open>
  C8. In mode \<^verbatim>\<open>json\<close>, when the upload opens and the model answers with a string that
  \<^verbatim>\<open>json.loads\<close> rejects, the request ends with the exception of \<^verbatim>\<open>json.loads\<close>
  (the format error of the model's response), which leaves \<^verbatim>\<open>index\<close>. No response with
  a file is returned, the temporary directory holds nothing but the upload when the block
  is left, and exactly one prompt has been sent: the call is not repeated.
\<close>

theorem non_json_answer_fails:
  assumes "request_method req = POST"
    and "file_field req = Some file"
    and "secure_name env (filename file) \<noteq> []"
    and "parse env (secure_name env (filename file)) (Upload (content file)) = Some doc"
    and "mode_field req = Some (py ''json'')"
    and "lang = (case target_language_field req of None \<Rightarrow> py ''en'' | Some l \<Rightarrow> l)"
    and "prompt = prompt_json (foldl (\<lambda>t p. t @ plain_text p) [] (pages doc)) lang"
    and "generate env (length sent) prompt = Some answer"
    and "loads env answer = None"
  shows "index env req sent = (Inl JSONDecodeError, sent @ [prompt])
       \<and> index_body env file lang (mode_field req) \<lparr>tmpdir = Map.empty, prompts = sent\<rparr> =
           (Inl JSONDecodeError,
            \<lparr>tmpdir = [secure_name env (filename file) \<mapsto> Upload (content file)],
             prompts = sent @ [prompt]\<rparr>)"
proof -
  have b: "index_body env file lang (mode_field req) \<lparr>tmpdir = Map.empty, prompts = sent\<rparr> =
           (Inl JSONDecodeError,
            \<lparr>tmpdir = [secure_name env (filename file) \<mapsto> Upload (content file)],
             prompts = sent @ [prompt]\<rparr>)"
    using assms(3,4,5,8,9) unfolding assms(7)
    by (simp add: index_body_def fitz_open_def Let_def structured_branch_def call_gemini_def)
  with assms(1,2,6) show ?thesis
    by (simp add: index_def Let_def)
qed

theorem non_json_answer_fails_witness:
  "request_method (demo_request (py ''%PDF'') (Some (py ''fr'')) (Some (py ''json''))) = POST
   \<and> parse (demo_env (\<lambda>n p. Some (py ''Hello''))) (py ''in.pdf'') (Upload (py ''%PDF'')) = Some \<lparr>is_pdf = True, pages = [demo_page]\<rparr>
   \<and> loads (demo_env (\<lambda>n p. Some (py ''Hello''))) (py ''Hello'') = None
   \<and> index (demo_env (\<lambda>n p. Some (py ''Hello'')))
        (demo_request (py ''%PDF'') (Some (py ''fr'')) (Some (py ''json''))) []
      = (Inl JSONDecodeError, [prompt_json (py ''Bonjour\<newline>Monde\<newline>'') (py ''fr'')])"
proof -
  let ?env = "demo_env (\<lambda>n p. Some (py ''Hello''))"
  let ?req = "demo_request (py ''%PDF'') (Some (py ''fr'')) (Some (py ''json''))"
  let ?file = "\<lparr>filename = py ''in.pdf'', content = py ''%PDF''\<rparr>"
  have h1: "request_method ?req = POST" by (simp add: demo_request_simps)
  have h2: "file_field ?req = Some ?file" by (simp add: demo_request_simps)
  have h3: "secure_name ?env (filename ?file) \<noteq> []" by (simp add: demo_env_simps demo_names)
  have h4: "parse ?env (secure_name ?env (filename ?file)) (Upload (content ?file)) = Some \<lparr>is_pdf = True, pages = [demo_page]\<rparr>" by (simp add: demo_env_simps)
  have h5: "mode_field ?req = Some (py ''json'')" by (simp add: demo_request_simps)
  have h6: "py ''fr'' = (case target_language_field ?req of None \<Rightarrow> py ''en'' | Some l \<Rightarrow> l)"
    by (simp add: demo_request_simps)
  have h7: "prompt_json (py ''Bonjour\<newline>Monde\<newline>'') (py ''fr'')
      = prompt_json (foldl (\<lambda>t p. t @ plain_text p) [] (pages \<lparr>is_pdf = True, pages = [demo_page]\<rparr>)) (py ''fr'')"
    by (simp only: demo_plain_text)
  have h8: "generate ?env (length ([]::pystr list))
      (prompt_json (py ''Bonjour\<newline>Monde\<newline>'') (py ''fr'')) = Some (py ''Hello'')"
    by (simp add: demo_env_simps)
  have h9: "loads ?env (py ''Hello'') = None"
    by (simp add: demo_env_simps) (simp add: py_def)
  from non_json_answer_fails [OF h1 h2 h3 h4 h5 h6 h7 h8 h9] h1 h4 h9 show ?thesis
    by (simp add: demo_env_simps(1))
qed

text \<open>
  C10. A POST request whose mode is none of \<^verbatim>\<open>json\<close>, \<^verbatim>\<open>pdf\<close>, \<^verbatim>\<open>both\<close> (or is
  missing), once the upload has been saved and read: no prompt is sent, nothing is
  written to the temporary directory besides the upload, no exception is raised, and the
  response is the rendered index page, the same as for a GET request.
\<close>

theorem unknown_mode_falls_through:
  assumes "request_method req = POST"
    and "file_field req = Some file"
    and "secure_name env (filename file) \<noteq> []"
    and "parse env (secure_name env (filename file)) (Upload (content file)) = Some doc"
    and "mode_field req \<noteq> Some (py ''json'')"
    and "mode_field req \<noteq> Some (py ''pdf'')"
    and "mode_field req \<noteq> Some (py ''both'')"
  shows "index env req sent = (Inr (RenderTemplate (py ''index.html'') (LANGUAGES env)), sent)
       \<and> index env req sent = index env (req\<lparr>request_method := GET\<rparr>) sent
       \<and> index_body env file lang (mode_field req) \<lparr>tmpdir = Map.empty, prompts = sent\<rparr> =
           (Inr None,
            \<lparr>tmpdir = [secure_name env (filename file) \<mapsto> Upload (content file)],
             prompts = sent\<rparr>)"
proof -
  have b: "\<And>lang. index_body env file lang (mode_field req) \<lparr>tmpdir = Map.empty, prompts = sent\<rparr> =
           (Inr None,
            \<lparr>tmpdir = [secure_name env (filename file) \<mapsto> Upload (content file)],
             prompts = sent\<rparr>)"
    using assms(3-7) by (simp add: index_body_def fitz_open_def Let_def)
  have i: "index env req sent = (Inr (RenderTemplate (py ''index.html'') (LANGUAGES env)), sent)"
    using assms(1,2) b by (simp add: index_def Let_def)
  have g: "index env (req\<lparr>request_method := GET\<rparr>) sent
      = (Inr (RenderTemplate (py ''index.html'') (LANGUAGES env)), sent)"
    by (simp add: index_def)
  from b i g show ?thesis by simp
qed

theorem unknown_mode_falls_through_witness:
  "request_method (demo_request (py ''%PDF'') None (Some (py ''xml''))) = POST
   \<and> parse (demo_env (\<lambda>n p. None)) (py ''in.pdf'') (Upload (py ''%PDF'')) = Some \<lparr>is_pdf = True, pages = [demo_page]\<rparr>
   \<and> index (demo_env (\<lambda>n p. None)) (demo_request (py ''%PDF'') None (Some (py ''xml''))) []
      = (Inr (RenderTemplate (py ''index.html'') [py ''en'', py ''fr'']), [])"
proof -
  let ?env = "demo_env (\<lambda>n p. None) :: pystr env"
  let ?req = "demo_request (py ''%PDF'') None (Some (py ''xml''))"
  let ?file = "\<lparr>filename = py ''in.pdf'', content = py ''%PDF''\<rparr>"
  have h1: "request_method ?req = POST" by (simp add: demo_request_simps)
  have h2: "file_field ?req = Some ?file" by (simp add: demo_request_simps)
  have h3: "secure_name ?env (filename ?file) \<noteq> []" by (simp add: demo_env_simps demo_names)
  have h4: "parse ?env (secure_name ?env (filename ?file)) (Upload (content ?file)) = Some \<lparr>is_pdf = True, pages = [demo_page]\<rparr>" by (simp add: demo_env_simps)
  have h5: "mode_field ?req \<noteq> Some (py ''json'')" by (simp add: demo_request_simps py_def)
  have h6: "mode_field ?req \<noteq> Some (py ''pdf'')" by (simp add: demo_request_simps py_def)
  have h7: "mode_field ?req \<noteq> Some (py ''both'')" by (simp add: demo_request_simps py_def)
  from unknown_mode_falls_through [OF h1 h2 h3 h4 h5 h6 h7] h1 h4 show ?thesis
    by (simp add: demo_env_simps)
qed

lemma both_is_not_json_or_pdf:
  "py ''both'' \<noteq> py ''json''" "py ''both'' \<noteq> py ''pdf''" "py ''pdf'' \<noteq> py ''json''"
  "py ''translated.pdf'' \<noteq> py ''output.json''"
  by (simp_all add: py_def)

lemma index_body_both:
  assumes "secure_name env (filename file) = name" and "name \<noteq> []"
    and "parse env (secure_name env (filename file)) (Upload (content file)) = Some doc"
    and "st1 = st\<lparr>tmpdir := (tmpdir st)(name \<mapsto> Upload (content file))\<rparr>"
    and "doc_text = foldl (\<lambda>t p. t @ plain_text p) [] (pages doc)"
  shows "index_body env file lang (Some (py ''both'')) st =
     (case structured_branch env doc_text lang st1 of
        (Inl e, st2) \<Rightarrow> (Inl e, st2)
      | (Inr _, st2) \<Rightarrow>
          (case rebuild_branch env name lang st2 of
             (Inl e, st3) \<Rightarrow> (Inl e, st3)
           | (Inr _, st3) \<Rightarrow>
               (case write_zip st3 of
                  (Inl e, st4) \<Rightarrow> (Inl e, st4)
                | (Inr _, st4) \<Rightarrow> (map_sum id Some (send_file st4 (py ''result.zip'')), st4))))"
  using assms(1,2,3) unfolding assms(4,5)
  by (simp add: index_body_def fitz_open_def Let_def both_is_not_json_or_pdf)

lemma write_zip_after_branches:
  assumes "tmpdir st2 = (tmpdir st1)(py ''output.json'' \<mapsto> JsonFile j)"
    and "tmpdir st3 = (tmpdir st2)(py ''translated.pdf'' \<mapsto> PdfFile out)"
  shows "\<exists>st4. write_zip st3 = (Inr (), st4) \<and>
           send_file st4 (py ''result.zip'') =
             Inr (SendFile (py ''result.zip'')
                    (ZipFile [(py ''output.json'', JsonFile j), (py ''translated.pdf'', PdfFile out)]))
           \<and> prompts st4 = prompts st3"
  using assms by (simp add: write_zip_def send_file_def both_is_not_json_or_pdf mode_names_distinct)

lemma demo_extract:
  "extract_blocks (blocks demo_page) [] = demo_items"
  by (simp add: demo_page_def demo_items_def truthy_def strip_def isspace_def py_def)

text \<open>
  C7. In mode \<^verbatim>\<open>both\<close>, once the upload has been saved and read: when the structured
  part raises, the request ends with that exception; when the structured part succeeds
  and the rebuild part raises, the request ends with that exception, although
  \<^verbatim>\<open>output.json\<close> has been written to the temporary directory by then. The only
  response that \<^verbatim>\<open>index\<close> returns in this mode is the archive \<^verbatim>\<open>result.zip\<close> with the
  two files \<^verbatim>\<open>output.json\<close> and \<^verbatim>\<open>translated.pdf\<close>, and it is returned only when both
  parts have succeeded: the caller never gets the JSON file or the PDF alone.
\<close>

theorem both_mode_is_atomic:
  assumes "request_method req = POST"
    and "file_field req = Some file"
    and "secure_name env (filename file) = name"
    and "name \<noteq> []"
    and "parse env (secure_name env (filename file)) (Upload (content file)) = Some doc"
    and "mode_field req = Some (py ''both'')"
    and "lang = (case target_language_field req of None \<Rightarrow> py ''en'' | Some l \<Rightarrow> l)"
    and "doc_text = foldl (\<lambda>t p. t @ plain_text p) [] (pages doc)"
    and "st1 = \<lparr>tmpdir = [name \<mapsto> Upload (content file)], prompts = sent\<rparr>"
  shows "(structured_branch env doc_text lang st1 = (Inl e, st2) \<longrightarrow>
            index env req sent = (Inl e, prompts st2))
       \<and> (structured_branch env doc_text lang st1 = (Inr (), st2)
            \<and> rebuild_branch env name lang st2 = (Inl e, st3) \<longrightarrow>
            index env req sent = (Inl e, prompts st3))
       \<and> (\<forall>resp. fst (index env req sent) = Inr resp \<longrightarrow>
            (\<exists>s2 s3 j out.
               structured_branch env doc_text lang st1 = (Inr (), s2)
               \<and> rebuild_branch env name lang s2 = (Inr (), s3)
               \<and> resp = SendFile (py ''result.zip'')
                     (ZipFile [(py ''output.json'', JsonFile j),
                               (py ''translated.pdf'', PdfFile out)])))"
proof -
  let ?st0 = "\<lparr>tmpdir = Map.empty, prompts = sent\<rparr> :: 'a state"
  have st1: "st1 = ?st0\<lparr>tmpdir := (tmpdir ?st0)(name \<mapsto> Upload (content file))\<rparr>"
    using assms(9) by simp
  note body = index_body_both [OF assms(3,4,5) st1 assms(8), of lang]
  have idx: "index env req sent =
      (case index_body env file lang (Some (py ''both'')) ?st0 of
         (Inl e, st) \<Rightarrow> (Inl e, prompts st)
       | (Inr (Some resp), st) \<Rightarrow> (Inr resp, prompts st)
       | (Inr None, st) \<Rightarrow> (Inr (RenderTemplate (py ''index.html'') (LANGUAGES env)), prompts st))"
    using assms(1,2,6,7) by (simp add: index_def Let_def)
  have a: "index env req sent = (Inl e, prompts st2)"
    if "structured_branch env doc_text lang st1 = (Inl e, st2)"
    using that by (simp add: idx body)
  have b: "index env req sent = (Inl e, prompts st3)"
    if "structured_branch env doc_text lang st1 = (Inr (), st2)"
      and "rebuild_branch env name lang st2 = (Inl e, st3)"
    using that by (simp add: idx body)
  have c: "\<exists>s2 s3 j out.
               structured_branch env doc_text lang st1 = (Inr (), s2)
               \<and> rebuild_branch env name lang s2 = (Inr (), s3)
               \<and> resp = SendFile (py ''result.zip'')
                     (ZipFile [(py ''output.json'', JsonFile j),
                               (py ''translated.pdf'', PdfFile out)])"
    if r: "fst (index env req sent) = Inr resp" for resp
  proof -
    obtain r1 s2 where s: "structured_branch env doc_text lang st1 = (r1, s2)"
      by (cases "structured_branch env doc_text lang st1")
    show ?thesis
    proof (cases r1)
      case (Inl e1)
      with s r show ?thesis by (simp add: idx body)
    next
      case (Inr u1)
      from structured_branch_state [OF s] Inr obtain j where
        j: "tmpdir s2 = (tmpdir st1)(py ''output.json'' \<mapsto> JsonFile j)"
        by auto
      obtain r2 s3 where p: "rebuild_branch env name lang s2 = (r2, s3)"
        by (cases "rebuild_branch env name lang s2")
      show ?thesis
      proof (cases r2)
        case (Inl e2)
        with s p Inr r show ?thesis by (simp add: idx body)
      next
        case u2: (Inr u2)
        from rebuild_branch_state [OF p] u2 obtain out where
          out: "tmpdir s3 = (tmpdir s2)(py ''translated.pdf'' \<mapsto> PdfFile out)"
          by auto
        from write_zip_after_branches [OF j out] obtain s4 where
          z: "write_zip s3 = (Inr (), s4)"
            "send_file s4 (py ''result.zip'') =
               Inr (SendFile (py ''result.zip'')
                      (ZipFile [(py ''output.json'', JsonFile j),
                                (py ''translated.pdf'', PdfFile out)]))"
          by blast
        from s p Inr u2 z r have
          "resp = SendFile (py ''result.zip'')
                    (ZipFile [(py ''output.json'', JsonFile j),
                              (py ''translated.pdf'', PdfFile out)])"
          by (simp add: idx body)
        with s p Inr u2 show ?thesis by auto
      qed
    qed
  qed
  from a b c show ?thesis by blast
qed

theorem both_mode_is_atomic_witness:
  "request_method (demo_request (py ''%PDF'') None (Some (py ''both''))) = POST
   \<and> parse (demo_env (\<lambda>n p. if n = 0 then Some (py ''{}'') else None)) (py ''in.pdf'') (Upload (py ''%PDF''))
       = Some \<lparr>is_pdf = True, pages = [demo_page]\<rparr>
   \<and> structured_branch (demo_env (\<lambda>n p. if n = 0 then Some (py ''{}'') else None))
         (py ''Bonjour\<newline>Monde\<newline>'') (py ''en'')
         \<lparr>tmpdir = [py ''in.pdf'' \<mapsto> Upload (py ''%PDF'')], prompts = []\<rparr>
       = (Inr (),
          \<lparr>tmpdir = [py ''in.pdf'' \<mapsto> Upload (py ''%PDF''),
                     py ''output.json'' \<mapsto> JsonFile (py ''{}'')],
           prompts = [prompt_json (py ''Bonjour\<newline>Monde\<newline>'') (py ''en'')]\<rparr>)
   \<and> index (demo_env (\<lambda>n p. if n = 0 then Some (py ''{}'') else None))
        (demo_request (py ''%PDF'') None (Some (py ''both''))) []
      = (Inl GenerateContentError,
         [prompt_json (py ''Bonjour\<newline>Monde\<newline>'') (py ''en''),
          prompt_translate (join_nl (map text' demo_items)) (py ''en'')])"
proof -
  let ?env = "demo_env (\<lambda>n p. if n = 0 then Some (py ''{}'') else None)"
  let ?req = "demo_request (py ''%PDF'') None (Some (py ''both''))"
  let ?file = "\<lparr>filename = py ''in.pdf'', content = py ''%PDF''\<rparr>"
  let ?text = "py ''Bonjour\<newline>Monde\<newline>''"
  let ?pj = "prompt_json ?text (py ''en'')"
  let ?pt = "prompt_translate (join_nl (map text' demo_items)) (py ''en'')"
  let ?st1 = "\<lparr>tmpdir = [py ''in.pdf'' \<mapsto> Upload (py ''%PDF'')], prompts = []\<rparr> :: pystr state"
  let ?st2 = "\<lparr>tmpdir = [py ''in.pdf'' \<mapsto> Upload (py ''%PDF''),
                         py ''output.json'' \<mapsto> JsonFile (py ''{}'')],
               prompts = [?pj]\<rparr> :: pystr state"
  let ?st3 = "\<lparr>tmpdir = [py ''in.pdf'' \<mapsto> Upload (py ''%PDF''),
                         py ''output.json'' \<mapsto> JsonFile (py ''{}'')],
               prompts = [?pj, ?pt]\<rparr> :: pystr state"
  have h1: "request_method ?req = POST" by (simp add: demo_request_simps)
  have h2: "file_field ?req = Some ?file" by (simp add: demo_request_simps)
  have h3: "secure_name ?env (filename ?file) = py ''in.pdf''" by (simp add: demo_env_simps)
  have h4: "py ''in.pdf'' \<noteq> []" by (simp add: demo_names)
  have h5: "parse ?env (secure_name ?env (filename ?file)) (Upload (content ?file)) = Some \<lparr>is_pdf = True, pages = [demo_page]\<rparr>" by (simp add: demo_env_simps)
  have h6: "mode_field ?req = Some (py ''both'')" by (simp add: demo_request_simps)
  have h7: "py ''en'' = (case target_language_field ?req of None \<Rightarrow> py ''en'' | Some l \<Rightarrow> l)"
    by (simp add: demo_request_simps)
  have h8: "?text = foldl (\<lambda>t p. t @ plain_text p) [] (pages \<lparr>is_pdf = True, pages = [demo_page]\<rparr>)"
    by (simp only: demo_plain_text)
  have h9: "?st1 = \<lparr>tmpdir = [py ''in.pdf'' \<mapsto> Upload (content ?file)], prompts = []\<rparr>"
    by simp
  have l: "loads ?env (py ''{}'') = Some (py ''{}'')"
    by (simp add: demo_env_simps) (simp add: py_def)
  have s: "structured_branch ?env ?text (py ''en'') ?st1 = (Inr (), ?st2)"
    by (simp add: structured_branch_def call_gemini_def demo_env_simps(3,7) l)
  have x: "extract_text_with_positions ?env ?st2 (py ''in.pdf'') = Inr [demo_items]"
    by (simp add: extract_text_with_positions_def fitz_open_def demo_env_simps demo_names
        demo_extract)
  have r: "rebuild_branch ?env (py ''in.pdf'') (py ''en'') ?st2 = (Inl GenerateContentError, ?st3)"
    by (simp add: rebuild_branch_def x call_gemini_def demo_env_simps(3))
  from both_mode_is_atomic [OF h1 h2 h3 h4 h5 h6 h7 h8 h9, of GenerateContentError ?st2 ?st3] s r
  have "index ?env ?req [] = (Inl GenerateContentError, [?pj, ?pt])"
    by simp
  with h1 h5 s show ?thesis by (simp add: demo_env_simps(1))
qed

section \<open>The language list\<close>

lemma call_gemini_LANGUAGES:
  "call_gemini (env\<lparr>LANGUAGES := langs\<rparr>) p st = call_gemini env p st"
  by (simp add: call_gemini_def)

lemma fitz_open_LANGUAGES:
  "fitz_open (env\<lparr>LANGUAGES := langs\<rparr>) st path = fitz_open env st path"
  by (simp add: fitz_open_def split: option.splits)

lemma extract_text_with_positions_LANGUAGES:
  "extract_text_with_positions (env\<lparr>LANGUAGES := langs\<rparr>) st path
     = extract_text_with_positions env st path"
  by (simp add: extract_text_with_positions_def fitz_open_LANGUAGES)

lemma translate_pages_LANGUAGES:
  "translate_pages (env\<lparr>LANGUAGES := langs\<rparr>) lang pages_data acc st
     = translate_pages env lang pages_data acc st"
  by (induction pages_data arbitrary: acc st)
     (simp_all add: call_gemini_LANGUAGES Let_def split: prod.splits sum.splits)

lemma call_on_page_LANGUAGES:
  "call_on_page (env\<lparr>LANGUAGES := langs\<rparr>) pdf op pg = call_on_page env pdf op pg"
  by (simp add: call_on_page_def)

lemma redact_items_LANGUAGES:
  "redact_items (env\<lparr>LANGUAGES := langs\<rparr>) pdf its pg = redact_items env pdf its pg"
  by (induction its arbitrary: pg)
     (simp_all add: add_redact_annot_def call_on_page_LANGUAGES split: prod.splits sum.splits)

lemma insert_items_LANGUAGES:
  "insert_items (env\<lparr>LANGUAGES := langs\<rparr>) pdf its pg = insert_items env pdf its pg"
  by (induction its arbitrary: pg)
     (simp_all add: insert_text_def call_on_page_LANGUAGES split: prod.splits sum.splits)

lemma rebuild_page_LANGUAGES:
  "rebuild_page (env\<lparr>LANGUAGES := langs\<rparr>) pdf its pg = rebuild_page env pdf its pg"
  by (simp add: rebuild_page_def redact_items_LANGUAGES insert_items_LANGUAGES
      apply_redactions_def call_on_page_LANGUAGES split: prod.splits sum.splits)

lemma rebuild_pages_LANGUAGES:
  "rebuild_pages (env\<lparr>LANGUAGES := langs\<rparr>) pdf n pgs tt = rebuild_pages env pdf n pgs tt"
  by (induction pgs arbitrary: n)
     (simp_all add: rebuild_page_LANGUAGES split: prod.splits sum.splits)

lemma rebuild_pdf_with_translation_LANGUAGES:
  "rebuild_pdf_with_translation (env\<lparr>LANGUAGES := langs\<rparr>) pdf_path tt output_path st
     = rebuild_pdf_with_translation env pdf_path tt output_path st"
  by (simp add: rebuild_pdf_with_translation_def fitz_open_LANGUAGES rebuild_pages_LANGUAGES
      split: sum.splits)

lemma structured_branch_LANGUAGES:
  "structured_branch (env\<lparr>LANGUAGES := langs\<rparr>) doc_text lang st
     = structured_branch env doc_text lang st"
  by (simp add: structured_branch_def call_gemini_LANGUAGES
      split: prod.splits sum.splits option.splits)

lemma rebuild_branch_LANGUAGES:
  "rebuild_branch (env\<lparr>LANGUAGES := langs\<rparr>) path lang st = rebuild_branch env path lang st"
  by (simp add: rebuild_branch_def extract_text_with_positions_LANGUAGES
      translate_pages_LANGUAGES rebuild_pdf_with_translation_LANGUAGES
      split: prod.splits sum.splits)

lemma index_body_LANGUAGES:
  "index_body (env\<lparr>LANGUAGES := langs\<rparr>) file lang user_choice st
     = index_body env file lang user_choice st"
  by (simp add: index_body_def fitz_open_LANGUAGES structured_branch_LANGUAGES
      rebuild_branch_LANGUAGES Let_def cong: sum.case_cong if_cong)

lemma write_zip_prompts: "write_zip st = (r, st') \<Longrightarrow> prompts st' = prompts st"
  by (auto simp: write_zip_def split: option.splits)

lemma index_body_prompts:
  assumes b: "index_body env file lang user_choice st = (r, st')"
  shows "\<exists>ps. prompts st' = prompts st @ ps
           \<and> (\<forall>p \<in> set ps. \<exists>t. p = prompt_json t lang \<or> p = prompt_translate t lang)"
proof (cases "secure_name env (filename file) = []")
  case True
  with b have "st' = st" by (simp add: index_body_def)
  then show ?thesis by simp
next
  case False
  let ?name = "secure_name env (filename file)"
  let ?st1 = "st\<lparr>tmpdir := (tmpdir st)(?name \<mapsto> Upload (content file))\<rparr>"
  have p1: "prompts ?st1 = prompts st" by simp
  show ?thesis
  proof (cases "fitz_open env ?st1 ?name")
    case (Inl e)
    with b False have "st' = ?st1" by (simp add: index_body_def Let_def)
    then show ?thesis by simp
  next
    case (Inr doc)
    let ?text = "foldl (\<lambda>t p. t @ plain_text p) [] (pages doc)"
    obtain r1 s2 where s: "structured_branch env ?text lang ?st1 = (r1, s2)"
      by (cases "structured_branch env ?text lang ?st1")
    from structured_branch_state [OF s] p1
    have ps2: "prompts s2 = prompts st @ [prompt_json ?text lang]" by simp
    obtain r2 s3 where p: "rebuild_branch env ?name lang ?st1 = (r2, s3)"
      by (cases "rebuild_branch env ?name lang ?st1")
    from rebuild_branch_state [OF p] p1 obtain ps where
      ps3: "prompts s3 = prompts st @ ps" "\<forall>p \<in> set ps. \<exists>t. p = prompt_translate t lang"
      by auto
    obtain r3 s4 where q: "rebuild_branch env ?name lang s2 = (r3, s4)"
      by (cases "rebuild_branch env ?name lang s2")
    from rebuild_branch_state [OF q] ps2 obtain qs where
      ps4: "prompts s4 = prompts st @ (prompt_json ?text lang # qs)"
        "\<forall>p \<in> set qs. \<exists>t. p = prompt_translate t lang"
      by auto
    obtain r4 s5 where z: "write_zip s4 = (r4, s5)"
      by (cases "write_zip s4")
    from write_zip_prompts [OF z] have ps5: "prompts s5 = prompts s4" .
    consider (json) "user_choice = Some (py ''json'')"
      | (pdf) "user_choice = Some (py ''pdf'')"
      | (both) "user_choice = Some (py ''both'')"
      | (other) "user_choice \<noteq> Some (py ''json'')" "user_choice \<noteq> Some (py ''pdf'')"
          "user_choice \<noteq> Some (py ''both'')"
      by blast
    then show ?thesis
    proof cases
      case json
      with b False Inr s have "st' = s2"
        by (cases r1) (simp_all add: index_body_def Let_def)
      with ps2 show ?thesis by auto
    next
      case pdf
      with b False Inr p have "st' = s3"
        by (cases r2) (simp_all add: index_body_def Let_def both_is_not_json_or_pdf)
      with ps3 show ?thesis by auto
    next
      case both
      with b False Inr s q z have "st' = s2 \<or> st' = s4 \<or> st' = s5"
        by (cases r1; cases r3; cases r4)
           (simp_all add: index_body_def Let_def both_is_not_json_or_pdf)
      moreover have "\<forall>p \<in> set (prompt_json ?text lang # qs).
          \<exists>t. p = prompt_json t lang \<or> p = prompt_translate t lang"
        using ps4(2) by auto
      ultimately show ?thesis using ps2 ps4(1) ps5 by (metis append_Nil2 list.set_intros(1) set_ConsD empty_iff empty_set)
    next
      case other
      with b False Inr have "st' = ?st1" by (simp add: index_body_def Let_def)
      then show ?thesis by simp
    qed
  qed
qed

lemma send_file_not_None: "map_sum id Some (send_file st path) \<noteq> Inr None"
  by (simp add: send_file_def split: option.splits)

lemma index_body_recognised:
  assumes "user_choice = Some (py ''json'') \<or> user_choice = Some (py ''pdf'')
           \<or> user_choice = Some (py ''both'')"
  shows "fst (index_body env file lang user_choice st) \<noteq> Inr None"
proof (cases "secure_name env (filename file) = []")
  case True
  then show ?thesis by (simp add: index_body_def)
next
  case False
  let ?name = "secure_name env (filename file)"
  let ?st1 = "st\<lparr>tmpdir := (tmpdir st)(?name \<mapsto> Upload (content file))\<rparr>"
  show ?thesis
  proof (cases "fitz_open env ?st1 ?name")
    case (Inl e)
    with False show ?thesis by (simp add: index_body_def Let_def)
  next
    case (Inr doc)
    let ?text = "foldl (\<lambda>t p. t @ plain_text p) [] (pages doc)"
    obtain r1 s2 where s: "structured_branch env ?text lang ?st1 = (r1, s2)"
      by (cases "structured_branch env ?text lang ?st1")
    obtain r2 s3 where p: "rebuild_branch env ?name lang ?st1 = (r2, s3)"
      by (cases "rebuild_branch env ?name lang ?st1")
    obtain r3 s4 where q: "rebuild_branch env ?name lang s2 = (r3, s4)"
      by (cases "rebuild_branch env ?name lang s2")
    obtain r4 s5 where z: "write_zip s4 = (r4, s5)"
      by (cases "write_zip s4")
    from assms consider (json) "user_choice = Some (py ''json'')"
      | (pdf) "user_choice = Some (py ''pdf'')"
      | (both) "user_choice = Some (py ''both'')"
      by blast
    then show ?thesis
    proof cases
      case json
      with False Inr s show ?thesis
        by (cases r1) (simp_all add: index_body_def Let_def send_file_not_None)
    next
      case pdf
      with False Inr p show ?thesis
        by (cases r2)
           (simp_all add: index_body_def Let_def both_is_not_json_or_pdf send_file_not_None)
    next
      case both
      with False Inr s q z show ?thesis
        by (cases r1; cases r3; cases r4)
           (simp_all add: index_body_def Let_def both_is_not_json_or_pdf send_file_not_None)
    qed
  qed
qed

lemma index_body_first_prompt:
  assumes n: "secure_name env (filename file) \<noteq> []"
    and d: "parse env (secure_name env (filename file)) (Upload (content file)) = Some doc"
    and m: "user_choice = Some (py ''json'') \<or> user_choice = Some (py ''both'')"
    and b: "index_body env file lang user_choice st = (r, st')"
  shows "\<exists>ps. prompts st' =
           prompts st @ prompt_json (foldl (\<lambda>t p. t @ plain_text p) [] (pages doc)) lang # ps"
proof -
  let ?name = "secure_name env (filename file)"
  let ?st1 = "st\<lparr>tmpdir := (tmpdir st)(?name \<mapsto> Upload (content file))\<rparr>"
  let ?text = "foldl (\<lambda>t p. t @ plain_text p) [] (pages doc)"
  from n d have o: "fitz_open env ?st1 ?name = Inr doc"
    by (simp add: fitz_open_def)
  obtain r1 s2 where s: "structured_branch env ?text lang ?st1 = (r1, s2)"
    by (cases "structured_branch env ?text lang ?st1")
  from structured_branch_state [OF s]
  have ps2: "prompts s2 = prompts st @ [prompt_json ?text lang]" by simp
  obtain r3 s4 where q: "rebuild_branch env ?name lang s2 = (r3, s4)"
    by (cases "rebuild_branch env ?name lang s2")
  from rebuild_branch_state [OF q] ps2 obtain qs where
    ps4: "prompts s4 = prompts st @ prompt_json ?text lang # qs"
    by auto
  obtain r4 s5 where z: "write_zip s4 = (r4, s5)"
    by (cases "write_zip s4")
  from write_zip_prompts [OF z] have ps5: "prompts s5 = prompts s4" .
  from m show ?thesis
  proof
    assume "user_choice = Some (py ''json'')"
    with b n o s have "st' = s2"
      by (cases r1) (simp_all add: index_body_def Let_def)
    with ps2 show ?thesis by simp
  next
    assume "user_choice = Some (py ''both'')"
    with b n o s q z have "st' = s2 \<or> st' = s4 \<or> st' = s5"
      by (cases r1; cases r3; cases r4)
         (simp_all add: index_body_def Let_def both_is_not_json_or_pdf)
    with ps2 ps4 ps5 show ?thesis by auto
  qed
qed

lemma demo_page_text: "plain_text demo_page = py ''Bonjour\<newline>Monde\<newline>''"
  by (simp add: demo_page_def)

text \<open>
  C4, as stated, fails: the handler never compares the target language with
  \<^verbatim>\<open>LANGUAGES\<close>. With the languages \<^verbatim>\<open>en\<close> and \<^verbatim>\<open>fr\<close> configured, a request in
  mode \<^verbatim>\<open>json\<close> for the language \<^verbatim>\<open>xx\<close> is processed: the prompt asks for a
  translation into \<^verbatim>\<open>xx\<close>, and the JSON file is returned.
\<close>

theorem target_language_validation_counterexample:
  "py ''xx'' \<notin> set (LANGUAGES (demo_env (\<lambda>n p. Some (py ''{}''))))
   \<and> index (demo_env (\<lambda>n p. Some (py ''{}'')))
        (demo_request (py ''%PDF'') (Some (py ''xx'')) (Some (py ''json''))) []
      = (Inr (SendFile (py ''output.json'') (JsonFile (py ''{}''))),
         [prompt_json (py ''Bonjour\<newline>Monde\<newline>'') (py ''xx'')])"
proof -
  let ?env = "demo_env (\<lambda>n p. Some (py ''{}''))"
  let ?file = "\<lparr>filename = py ''in.pdf'', content = py ''%PDF''\<rparr>"
  let ?pj = "prompt_json (py ''Bonjour\<newline>Monde\<newline>'') (py ''xx'')"
  have n: "py ''xx'' \<notin> set (LANGUAGES ?env)"
    by (simp add: demo_env_simps) (simp add: py_def)
  have l: "loads ?env (py ''{}'') = Some (py ''{}'')"
    by (simp add: demo_env_simps) (simp add: py_def)
  have s: "structured_branch ?env (py ''Bonjour\<newline>Monde\<newline>'') (py ''xx'')
             \<lparr>tmpdir = [py ''in.pdf'' \<mapsto> Upload (py ''%PDF'')], prompts = []\<rparr>
      = (Inr (),
         \<lparr>tmpdir = [py ''in.pdf'' \<mapsto> Upload (py ''%PDF''),
                    py ''output.json'' \<mapsto> JsonFile (py ''{}'')],
          prompts = [?pj]\<rparr>)"
    by (simp add: structured_branch_def call_gemini_def demo_env_simps(3,7) l)
  have b: "index_body ?env ?file (py ''xx'') (Some (py ''json''))
             \<lparr>tmpdir = Map.empty, prompts = []\<rparr>
      = (Inr (Some (SendFile (py ''output.json'') (JsonFile (py ''{}'')))),
         \<lparr>tmpdir = [py ''in.pdf'' \<mapsto> Upload (py ''%PDF''),
                    py ''output.json'' \<mapsto> JsonFile (py ''{}'')],
          prompts = [?pj]\<rparr>)"
    by (simp add: index_body_def fitz_open_def Let_def demo_env_simps(1,2) demo_names
        demo_page_text s send_file_def)
  have "index ?env (demo_request (py ''%PDF'') (Some (py ''xx'')) (Some (py ''json''))) []
      = (Inr (SendFile (py ''output.json'') (JsonFile (py ''{}''))), [?pj])"
    by (simp add: index_def demo_request_simps Let_def b)
  with n show ?thesis by simp
qed

text \<open>
  C4, amended. The target language of a request (\<^verbatim>\<open>en\<close> when the form has none) is
  used as it is. In each of the three modes the result of \<^verbatim>\<open>index\<close> does not depend on
  \<^verbatim>\<open>LANGUAGES\<close>; every prompt sent for the request is one of the two templates filled
  with that target language; and in the modes \<^verbatim>\<open>json\<close> and \<^verbatim>\<open>both\<close>, once the upload
  has been read, the first prompt sent is the JSON prompt for the text of the document
  and that language. \<^verbatim>\<open>LANGUAGES\<close> is only passed to the template of the index page.
\<close>

theorem target_language_is_not_validated:
  assumes "request_method req = POST"
    and "lang = (case target_language_field req of None \<Rightarrow> py ''en'' | Some l \<Rightarrow> l)"
    and "mode_field req = Some (py ''json'') \<or> mode_field req = Some (py ''pdf'')
         \<or> mode_field req = Some (py ''both'')"
  shows "index (env\<lparr>LANGUAGES := langs\<rparr>) req sent = index env req sent
       \<and> (\<exists>ps. snd (index env req sent) = sent @ ps
               \<and> (\<forall>p \<in> set ps. \<exists>t. p = prompt_json t lang \<or> p = prompt_translate t lang))
       \<and> (\<forall>file doc.
             file_field req = Some file \<and> secure_name env (filename file) \<noteq> []
             \<and> parse env (secure_name env (filename file)) (Upload (content file)) = Some doc
             \<and> mode_field req \<noteq> Some (py ''pdf'') \<longrightarrow>
             (\<exists>ps. snd (index env req sent) =
                sent @ prompt_json (foldl (\<lambda>t p. t @ plain_text p) [] (pages doc)) lang # ps))"
proof (cases "file_field req")
  case None
  with assms(1) have "index env req sent = (Inl BadRequestKeyError, sent)"
    and "index (env\<lparr>LANGUAGES := langs\<rparr>) req sent = (Inl BadRequestKeyError, sent)"
    by (simp_all add: index_def)
  with None show ?thesis by simp
next
  case (Some upl)
  let ?st0 = "\<lparr>tmpdir = Map.empty, prompts = sent\<rparr> :: 'a state"
  obtain r st' where b: "index_body env upl lang (mode_field req) ?st0 = (r, st')"
    by (cases "index_body env upl lang (mode_field req) ?st0")
  from index_body_recognised [OF assms(3), of env upl lang ?st0] b have nn: "r \<noteq> Inr None"
    by simp
  have p: "snd (index env req sent) = prompts st'"
    using assms(1,2) Some b
    by (simp add: index_def Let_def split: sum.splits option.splits)
  have i: "index (env\<lparr>LANGUAGES := langs\<rparr>) req sent = index env req sent"
    using assms(1,2) Some b nn
    by (simp add: index_def Let_def index_body_LANGUAGES split: sum.splits option.splits)
  from index_body_prompts [OF b] p
  have ii: "\<exists>ps. snd (index env req sent) = sent @ ps
               \<and> (\<forall>p \<in> set ps. \<exists>t. p = prompt_json t lang \<or> p = prompt_translate t lang)"
    by simp
  have iii: "\<exists>ps. snd (index env req sent) =
                sent @ prompt_json (foldl (\<lambda>t p. t @ plain_text p) [] (pages doc)) lang # ps"
    if "file_field req = Some file'" "secure_name env (filename file') \<noteq> []"
      "parse env (secure_name env (filename file')) (Upload (content file')) = Some doc" "mode_field req \<noteq> Some (py ''pdf'')"
    for file' doc
  proof -
    from that(1) Some have f: "file' = upl" by simp
    from that(4) assms(3) have m: "mode_field req = Some (py ''json'')
        \<or> mode_field req = Some (py ''both'')" by blast
    from index_body_first_prompt [OF that(2,3) [unfolded f] m b] p show ?thesis
      by simp
  qed
  from i ii iii show ?thesis by blast
qed

theorem target_language_is_not_validated_witness:
  "request_method (demo_request (py ''%PDF'') (Some (py ''xx'')) (Some (py ''json''))) = POST
   \<and> mode_field (demo_request (py ''%PDF'') (Some (py ''xx'')) (Some (py ''json'')))
       = Some (py ''json'')
   \<and> index ((demo_env (\<lambda>n p. Some (py ''{}'')))\<lparr>LANGUAGES := []\<rparr>)
        (demo_request (py ''%PDF'') (Some (py ''xx'')) (Some (py ''json''))) []
      = index (demo_env (\<lambda>n p. Some (py ''{}'')))
          (demo_request (py ''%PDF'') (Some (py ''xx'')) (Some (py ''json''))) []"
proof -
  let ?req = "demo_request (py ''%PDF'') (Some (py ''xx'')) (Some (py ''json''))"
  have h1: "request_method ?req = POST" by (simp add: demo_request_simps)
  have h2: "py ''xx'' = (case target_language_field ?req of None \<Rightarrow> py ''en'' | Some l \<Rightarrow> l)"
    by (simp add: demo_request_simps)
  have m: "mode_field ?req = Some (py ''json'')" by (simp add: demo_request_simps)
  then have h3: "mode_field ?req = Some (py ''json'') \<or> mode_field ?req = Some (py ''pdf'')
      \<or> mode_field ?req = Some (py ''both'')" by simp
  from target_language_is_not_validated [OF h1 h2 h3,
      where env = "demo_env (\<lambda>n p. Some (py ''{}''))" and langs = "[]" and sent = "[]"] h1 m
  show ?thesis by blast
qed

section \<open>Files that are not PDFs\<close>

lemma demo_text_request_simps:
  "request_method (demo_text_request bytes language mode) = POST"
  "file_field (demo_text_request bytes language mode)
     = Some \<lparr>filename = py ''in.txt'', content = bytes\<rparr>"
  "target_language_field (demo_text_request bytes language mode) = language"
  "mode_field (demo_text_request bytes language mode) = mode"
  by (simp_all add: demo_text_request_def)

lemma demo_parse_text:
  "parse (demo_env model) (py ''in.txt'') (Upload (py ''hello''))
     = Some \<lparr>is_pdf = False, pages = [text_page (py ''hello'')]\<rparr>"
  by (simp add: demo_env_def) (simp add: py_def)

lemma demo_text_names:
  "py ''in.txt'' \<noteq> []" "py ''in.txt'' \<noteq> py ''output.json''"
  "py ''in.txt'' \<noteq> py ''translated.pdf''"
  by (simp_all add: py_def)

text \<open>
  C9, as stated, fails: the handler does not check that the upload is a PDF, and the
  library opens files of other formats. Where it opens the text file \<^verbatim>\<open>in.txt\<close> with
  the content \<^verbatim>\<open>hello\<close> as a document that is not a PDF, the request in mode
  \<^verbatim>\<open>json\<close> returns \<^verbatim>\<open>output.json\<close>, and the request in mode \<^verbatim>\<open>pdf\<close> ends with an
  exception of a call on the page, after a prompt has been sent.
\<close>

theorem invalid_pdf_counterexample:
  "parse (demo_env (\<lambda>n p. Some (py ''{}''))) (py ''in.txt'') (Upload (py ''hello''))
     = Some \<lparr>is_pdf = False, pages = [text_page (py ''hello'')]\<rparr>
   \<and> index (demo_env (\<lambda>n p. Some (py ''{}'')))
        (demo_text_request (py ''hello'') None (Some (py ''json''))) []
      = (Inr (SendFile (py ''output.json'') (JsonFile (py ''{}''))),
         [prompt_json (py ''hello'') (py ''en'')])
   \<and> index (demo_env (\<lambda>n p. Some (py ''{}'')))
        (demo_text_request (py ''hello'') None (Some (py ''pdf''))) []
      = (Inl PageCallError, [prompt_translate (py ''hello'') (py ''en'')])"
proof -
  let ?env = "demo_env (\<lambda>n p. Some (py ''{}''))"
  let ?file = "\<lparr>filename = py ''in.txt'', content = py ''hello''\<rparr>"
  let ?st0 = "\<lparr>tmpdir = Map.empty, prompts = []\<rparr> :: pystr state"
  let ?st1 = "\<lparr>tmpdir = [py ''in.txt'' \<mapsto> Upload (py ''hello'')], prompts = []\<rparr> :: pystr state"
  let ?pj = "prompt_json (py ''hello'') (py ''en'')"
  let ?pt = "prompt_translate (py ''hello'') (py ''en'')"
  have l: "loads ?env (py ''{}'') = Some (py ''{}'')"
    by (simp add: demo_env_simps) (simp add: py_def)
  have o: "fitz_open ?env ?st1 (py ''in.txt'')
      = Inr \<lparr>is_pdf = False, pages = [text_page (py ''hello'')]\<rparr>"
    by (simp add: fitz_open_def demo_parse_text)
  have s: "structured_branch ?env (py ''hello'') (py ''en'') ?st1
      = (Inr (),
         \<lparr>tmpdir = [py ''in.txt'' \<mapsto> Upload (py ''hello''),
                    py ''output.json'' \<mapsto> JsonFile (py ''{}'')],
          prompts = [?pj]\<rparr>)"
    by (simp add: structured_branch_def call_gemini_def demo_env_simps(3,7) l)
  have bj: "index_body ?env ?file (py ''en'') (Some (py ''json'')) ?st0
      = (Inr (Some (SendFile (py ''output.json'') (JsonFile (py ''{}'')))),
         \<lparr>tmpdir = [py ''in.txt'' \<mapsto> Upload (py ''hello''),
                    py ''output.json'' \<mapsto> JsonFile (py ''{}'')],
          prompts = [?pj]\<rparr>)"
    by (simp add: index_body_def Let_def demo_env_simps(1) demo_text_names o text_page_def
        s send_file_def)
  have j: "index ?env (demo_text_request (py ''hello'') None (Some (py ''json''))) []
      = (Inr (SendFile (py ''output.json'') (JsonFile (py ''{}''))), [?pj])"
    by (simp add: index_def demo_text_request_simps Let_def bj)
  have x: "extract_text_with_positions ?env ?st1 (py ''in.txt'')
      = Inr [[\<lparr>bbox = (72, 72, 300, 90), text' = py ''hello''\<rparr>]]"
    by (simp add: extract_text_with_positions_def o text_page_def truthy_def)
       (simp add: strip_def isspace_def py_def)
  have ti: "translated_items [\<lparr>bbox = (72, 72, 300, 90), text' = py ''hello''\<rparr>] (py ''{}'')
      = [\<lparr>bbox = (72, 72, 300, 90), text' = py ''{}''\<rparr>]"
    by (simp add: translated_items_def py_def)
  have r: "rebuild_branch ?env (py ''in.txt'') (py ''en'') ?st1
      = (Inl PageCallError,
         \<lparr>tmpdir = [py ''in.txt'' \<mapsto> Upload (py ''hello'')], prompts = [?pt]\<rparr>)"
    by (simp add: rebuild_branch_def x call_gemini_def demo_env_simps(3) ti
        rebuild_pdf_with_translation_def fitz_open_def demo_parse_text rebuild_page_def
        add_redact_annot_def call_on_page_def demo_page_call)
  have bp: "index_body ?env ?file (py ''en'') (Some (py ''pdf'')) ?st0
      = (Inl PageCallError,
         \<lparr>tmpdir = [py ''in.txt'' \<mapsto> Upload (py ''hello'')], prompts = [?pt]\<rparr>)"
    by (simp add: index_body_def Let_def demo_env_simps(1) demo_text_names o
        both_is_not_json_or_pdf r)
  have p: "index ?env (demo_text_request (py ''hello'') None (Some (py ''pdf''))) []
      = (Inl PageCallError, [?pt])"
    by (simp add: index_def demo_text_request_simps Let_def bp)
  from demo_parse_text [of "\<lambda>n p. Some (py ''{}'')"] j p show ?thesis by blast
qed

text \<open>
  C9, amended. When the library cannot open the uploaded file (\<^verbatim>\<open>fitz.open\<close> raises),
  the request ends with that exception, in every mode. It is raised at the first read:
  no prompt is sent, the temporary directory holds nothing but the upload, no response
  with a file is returned, and the extractor on such a file returns the exception and no
  list of blocks.
\<close>

theorem invalid_pdf_fails:
  assumes "request_method req = POST"
    and "file_field req = Some file"
    and "secure_name env (filename file) \<noteq> []"
    and "parse env (secure_name env (filename file)) (Upload (content file)) = None"
  shows "index env req sent = (Inl FileDataError, sent)
       \<and> index_body env file lang (mode_field req) \<lparr>tmpdir = Map.empty, prompts = sent\<rparr> =
           (Inl FileDataError,
            \<lparr>tmpdir = [secure_name env (filename file) \<mapsto> Upload (content file)],
             prompts = sent\<rparr>)
       \<and> extract_text_with_positions env
            \<lparr>tmpdir = [secure_name env (filename file) \<mapsto> Upload (content file)], prompts = sent\<rparr>
            (secure_name env (filename file)) = Inl FileDataError"
proof (intro conjI)
  show "index env req sent = (Inl FileDataError, sent)"
    using assms(1,2) index_body_unreadable [OF assms(3,4)]
    by (simp add: index_def Let_def)
  show "index_body env file lang (mode_field req) \<lparr>tmpdir = Map.empty, prompts = sent\<rparr> =
           (Inl FileDataError,
            \<lparr>tmpdir = [secure_name env (filename file) \<mapsto> Upload (content file)],
             prompts = sent\<rparr>)"
    using index_body_unreadable [OF assms(3,4)] by simp
  show "extract_text_with_positions env
            \<lparr>tmpdir = [secure_name env (filename file) \<mapsto> Upload (content file)], prompts = sent\<rparr>
            (secure_name env (filename file)) = Inl FileDataError"
    using assms(4) by (simp add: extract_text_with_positions_def fitz_open_def)
qed

theorem invalid_pdf_fails_witness:
  "request_method (demo_request (py ''hello'') None (Some (py ''pdf''))) = POST
   \<and> secure_name (demo_env (\<lambda>n p. Some (py ''{}''))) (py ''in.pdf'') \<noteq> []
   \<and> parse (demo_env (\<lambda>n p. Some (py ''{}''))) (py ''in.pdf'') (Upload (py ''hello'')) = None
   \<and> index (demo_env (\<lambda>n p. Some (py ''{}''))) (demo_request (py ''hello'') None (Some (py ''pdf''))) []
       = (Inl FileDataError, [])"
proof -
  have h1: "request_method (demo_request (py ''hello'') None (Some (py ''pdf''))) = POST"
    by (simp add: demo_request_def)
  have h2: "file_field (demo_request (py ''hello'') None (Some (py ''pdf'')))
      = Some \<lparr>filename = py ''in.pdf'', content = py ''hello''\<rparr>"
    by (simp add: demo_request_def)
  have h3: "secure_name (demo_env (\<lambda>n p. Some (py ''{}'')))
      (filename \<lparr>filename = py ''in.pdf'', content = py ''hello''\<rparr>) \<noteq> []"
    by (simp add: demo_env_def py_def)
  have h4: "parse (demo_env (\<lambda>n p. Some (py ''{}'')))
      (secure_name (demo_env (\<lambda>n p. Some (py ''{}'')))
         (filename \<lparr>filename = py ''in.pdf'', content = py ''hello''\<rparr>))
      (Upload (content \<lparr>filename = py ''in.pdf'', content = py ''hello''\<rparr>)) = None"
    by (simp add: demo_env_def py_def)
  from invalid_pdf_fails [OF h1 h2 h3 h4] h1 h3 h4 show ?thesis
    by (simp add: demo_env_simps(1))
qed


end
